theory Spec2Isabelle
  imports Complex_Main "HOL-Library.Log_Nat" "HOL-Library.Sublist"
begin

section \<open>JavaScript numbers and strings\<close>

text \<open>
  A JavaScript number is an IEEE 754 binary64 value: a finite value, modelled by the
  rational it denotes, or one of \<open>Infinity\<close>, \<open>-Infinity\<close> and \<open>NaN\<close>. The sign of
  zero is not represented: no operation of the modules divides by zero or inspects it.
\<close>

datatype jsnum = Num rat | PosInf | NegInf | NaN

text \<open>
  \<open>binade x\<close> is the exponent \<open>e\<close> with \<open>2^e \<le> |x| < 2^(e+1)\<close>. \<open>fl x\<close> is
  the multiple of the unit in the last place nearest to \<open>x\<close>, a tie going to the even
  multiple; below \<open>2^-1022\<close> the unit is that of the subnormal numbers. \<open>round64\<close>
  is the binary64 result of an operation whose exact result is \<open>x\<close>: \<open>fl x\<close>, or an
  infinity when that is \<open>2^1024\<close> or more in magnitude.
\<close>

definition binade :: "rat \<Rightarrow> int" where
  "binade x = (let (p, q) = quotient_of \<bar>x\<bar>; d = bitlen p - bitlen q
               in if 2 powi d \<le> \<bar>x\<bar> then d else d - 1)"

definition round_half_even :: "rat \<Rightarrow> int" where
  "round_half_even y = (let f = \<lfloor>y\<rfloor>; r = y - of_int f
     in if r < 1 / 2 then f else if 1 / 2 < r then f + 1 else if even f then f else f + 1)"

definition fl :: "rat \<Rightarrow> rat" where
  "fl x = (if x = 0 then 0
           else let u = 2 powi (max (binade x) (- 1022) - 52)
                in of_int (round_half_even (x / u)) * u)"

definition round64 :: "rat \<Rightarrow> jsnum" where
  "round64 x =
     (let r = fl x
      in if r = 0 then Num 0
         else if 1024 \<le> binade r then (if 0 < r then PosInf else NegInf)
         else Num r)"

text \<open>The sign of a number that is not \<open>NaN\<close>.\<close>

fun jsign :: "jsnum \<Rightarrow> int" where
  "jsign (Num x) = (if 0 < x then 1 else if x < 0 then - 1 else 0)"
| "jsign PosInf = 1"
| "jsign NegInf = - 1"
| "jsign NaN = 0"

definition signed_infinity :: "int \<Rightarrow> jsnum" where
  "signed_infinity s = (if s = 0 then NaN else if 0 < s then PosInf else NegInf)"

fun js_add :: "jsnum \<Rightarrow> jsnum \<Rightarrow> jsnum" where
  "js_add (Num x) (Num y) = round64 (x + y)"
| "js_add NaN b = NaN"
| "js_add a NaN = NaN"
| "js_add PosInf NegInf = NaN"
| "js_add NegInf PosInf = NaN"
| "js_add PosInf b = PosInf"
| "js_add NegInf b = NegInf"
| "js_add a b = b"

text \<open>An infinity times zero is \<open>NaN\<close>.\<close>

fun js_mul :: "jsnum \<Rightarrow> jsnum \<Rightarrow> jsnum" where
  "js_mul (Num x) (Num y) = round64 (x * y)"
| "js_mul NaN b = NaN"
| "js_mul a NaN = NaN"
| "js_mul a b = signed_infinity (jsign a * jsign b)"

text \<open>
  A zero divisor counts as \<open>+0\<close>; the modules divide by the length of a non-empty array
  and by 100 only.
\<close>

fun js_div :: "jsnum \<Rightarrow> jsnum \<Rightarrow> jsnum" where
  "js_div (Num x) (Num y) = (if y = 0 then signed_infinity (jsign (Num x)) else round64 (x / y))"
| "js_div NaN b = NaN"
| "js_div a NaN = NaN"
| "js_div (Num x) b = Num 0"
| "js_div a (Num y) = signed_infinity (jsign a * (if y < 0 then - 1 else 1))"
| "js_div a b = NaN"

text \<open>\<open>a < b\<close>, false when either is \<open>NaN\<close>.\<close>

fun js_less :: "jsnum \<Rightarrow> jsnum \<Rightarrow> bool" where
  "js_less (Num x) (Num y) = (x < y)"
| "js_less NaN b = False"
| "js_less a NaN = False"
| "js_less a NegInf = False"
| "js_less NegInf b = True"
| "js_less PosInf b = False"
| "js_less a PosInf = True"

text \<open>\<open>Math.round\<close>: the nearest integer, a tie going up.\<close>

fun Math_round :: "jsnum \<Rightarrow> jsnum" where
  "Math_round (Num x) = Num (of_int \<lfloor>x + 1 / 2\<rfloor>)"
| "Math_round a = a"

text \<open>\<open>Math.max\<close> of the elements: \<open>NaN\<close> when one of them is, \<open>-Infinity\<close> of none.\<close>

definition Math_max :: "jsnum list \<Rightarrow> jsnum" where
  "Math_max xs =
     foldl (\<lambda>m x. if m = NaN \<or> x = NaN then NaN else if js_less m x then x else m) NegInf xs"

text \<open>The decimal text of an integer, as a template literal renders it.\<close>

definition digit_char :: "nat \<Rightarrow> char" where
  "digit_char d = ''0123456789'' ! d"

fun decimal :: "nat \<Rightarrow> string" where
  "decimal n = (if 10 \<le> n then decimal (n div 10) else []) @ [digit_char (n mod 10)]"

definition number_text :: "int \<Rightarrow> string" where
  "number_text i = (if 0 \<le> i then decimal (nat i) else CHR ''-'' # decimal (nat \<bar>i\<bar>))"

text \<open>
  The text of a number in a template literal, for the numbers that \<open>Math.round\<close>
  returns: an integer (of fewer than 22 digits), an infinity or \<open>NaN\<close>.
\<close>

fun rounded_text :: "jsnum \<Rightarrow> string" where
  "rounded_text (Num x) = number_text \<lfloor>x\<rfloor>"
| "rounded_text PosInf = ''Infinity''"
| "rounded_text NegInf = ''-Infinity''"
| "rounded_text NaN = ''NaN''"

definition toUpperCase :: "string \<Rightarrow> string" where
  "toUpperCase s =
     map (\<lambda>c. let n = (of_char c :: nat) in if 97 \<le> n \<and> n \<le> 122 then char_of (n - 32) else c) s"

text \<open>\<open>Array.prototype.join\<close>.\<close>

fun join :: "string \<Rightarrow> string list \<Rightarrow> string" where
  "join sep [] = []"
| "join sep [x] = x"
| "join sep (x # y # ys) = x @ sep @ join sep (y # ys)"

text \<open>
  \<open>xs.slice(start)\<close> for an integer \<open>start\<close>: a negative start counts from the end,
  and \<open>-0\<close> is \<open>0\<close>.
\<close>

definition slice :: "'a list \<Rightarrow> int \<Rightarrow> 'a list" where
  "slice xs start =
     (let n = int (length xs);
          k = (if start < 0 then max (n + start) 0 else min start n)
      in drop (nat k) xs)"

section \<open>Decoded values\<close>

text \<open>
  A value decoded by \<open>JSON.parse\<close>. An object is the list of its own properties with
  their values, each key once. A decoded array or object is a new object, identical to no
  other.
\<close>

datatype json =
  JNull | JBool bool | JNumber jsnum | JString string | JArray "json list"
  | JObject "(string \<times> json) list"

text \<open>Property access \<open>v.k\<close> on a decoded value that is not \<open>null\<close>; \<open>None\<close> is \<open>undefined\<close>.\<close>

fun get_prop :: "json \<Rightarrow> string \<Rightarrow> json option" where
  "get_prop (JObject kvs) k = map_of kvs k"
| "get_prop _ k = None"

text \<open>\<open>a ?? b\<close>: \<open>b\<close> when \<open>a\<close> is \<open>undefined\<close> or \<open>null\<close>.\<close>

fun coalesce :: "json option \<Rightarrow> json \<Rightarrow> json" where
  "coalesce None b = b"
| "coalesce (Some JNull) b = b"
| "coalesce (Some a) b = a"

text \<open>
  The equality of a \<open>Set\<close>: primitive values are the same when they are equal, an array
  or an object is the same as itself only.
\<close>

fun is_primitive :: "json \<Rightarrow> bool" where
  "is_primitive (JArray _) = False"
| "is_primitive (JObject _) = False"
| "is_primitive _ = True"

definition same_value_zero :: "json \<Rightarrow> json \<Rightarrow> bool" where
  "same_value_zero a b = (is_primitive a \<and> a = b)"

text \<open>\<open>[...new Set(xs)]\<close>: the distinct elements in the order of their first appearance.\<close>

fun Set_add_all :: "json list \<Rightarrow> json list \<Rightarrow> json list" where
  "Set_add_all acc [] = acc"
| "Set_add_all acc (x # xs) =
     Set_add_all (if list_ex (\<lambda>y. same_value_zero y x) acc then acc else acc @ [x]) xs"

definition new_Set :: "json list \<Rightarrow> json list" where
  "new_Set xs = Set_add_all [] xs"

section \<open>types.ts\<close>

datatype WorkerPersonality = Skeptic | Auditor | Advocate | Security

datatype Verdict = Approve | Reject | Concern | Neutral

datatype FinalVerdict = FApprove | FReject | FConcern | FMixed

fun Verdict_str :: "Verdict \<Rightarrow> string" where
  "Verdict_str Approve = ''approve''"
| "Verdict_str Reject = ''reject''"
| "Verdict_str Concern = ''concern''"
| "Verdict_str Neutral = ''neutral''"

fun FinalVerdict_str :: "FinalVerdict \<Rightarrow> string" where
  "FinalVerdict_str FApprove = ''approve''"
| "FinalVerdict_str FReject = ''reject''"
| "FinalVerdict_str FConcern = ''concern''"
| "FinalVerdict_str FMixed = ''mixed''"

record Message =
  role :: string
  content :: string

record SessionMessage =
  type :: string
  message :: "Message option"
  sessionId :: string
  uuid :: string
  timestamp :: string
  cwd :: "string option"
  isMeta :: "bool option"

text \<open>A \<open>Date\<close> that is valid is its time value, in milliseconds since the epoch.\<close>

record ParsedSession =
  id :: string
  messages :: "SessionMessage list"
  session_cwd :: "string option"
  startTime :: int
  endTime :: int

record WorkerConfig =
  name :: WorkerPersonality
  variant :: string
  promptTemplate :: string
  description :: string

text \<open>
  A worker verdict as it exists when the program runs. \<open>runWorker\<close> copies the verdict,
  the summary and the two lists from the decoded output of the worker, so these fields
  hold decoded values, whatever the types declared for them; the confidence is a number.
\<close>

record WorkerVerdict =
  worker :: WorkerPersonality
  verdict :: json
  confidence :: jsnum
  summary :: json
  concerns :: "json list"
  recommendations :: "json list"
  rawOutput :: string

record ConsensusResult =
  finalVerdict :: FinalVerdict
  consensus_confidence :: jsnum
  agreement :: jsnum
  consensus_summary :: string
  allConcerns :: "json list"
  allRecommendations :: "json list"
  dissenting :: "WorkerVerdict list"

record SpawnWorkerOptions =
  opt_variant :: string
  prompt :: string
  timeout :: "nat option"
  binDir :: "string option"

record WorkerResult =
  success :: bool
  output' :: string
  error :: "string option"

section \<open>The platform\<close>

text \<open>
  The functions of Node.js and of the language that the modules call, and the state of
  the machine they read. \<open>JSON_parse\<close> is \<open>None\<close> where \<open>JSON.parse\<close> throws;
  \<open>JSON_parse_message\<close> is \<open>JSON.parse(line) as SessionMessage\<close>, \<open>None\<close> where
  the line does not decode to a record; \<open>new_Date\<close> is the time value of
  \<open>new Date(s)\<close>, \<open>None\<close> for an invalid date; \<open>readFileSync\<close> is \<open>None\<close>
  where reading throws; \<open>String_replace s pat by\<close> is \<open>s.replace(pat, by)\<close>;
  \<open>ToPropertyKey\<close> is the property key that the language makes of a decoded value
  that is not a string, \<open>None\<close> where the conversion throws a \<open>TypeError\<close>.
  \<open>DEFAULT_BIN_DIR\<close> is a constant of \<open>core/index.js\<close>.
\<close>

record platform =
  JSON_parse :: "string \<Rightarrow> json option"
  JSON_parse_message :: "string \<Rightarrow> SessionMessage option"
  new_Date :: "string \<Rightarrow> int option"
  path_basename :: "string \<Rightarrow> string \<Rightarrow> string"
  path_join :: "string \<Rightarrow> string \<Rightarrow> string"
  existsSync :: "string \<Rightarrow> bool"
  readFileSync :: "string \<Rightarrow> string option"
  String_replace :: "string \<Rightarrow> string \<Rightarrow> string \<Rightarrow> string"
  ToPropertyKey :: "json \<Rightarrow> string option"
  DEFAULT_BIN_DIR :: string
  process_env :: "string \<rightharpoonup> string"

datatype js_error = TypeError

text \<open>The property key of a value: a string is its own key.\<close>

fun property_key :: "platform \<Rightarrow> json \<Rightarrow> string option" where
  "property_key P (JString s) = Some s"
| "property_key P v = ToPropertyKey P v"

text \<open>
  The names of the properties of \<open>Object.prototype\<close>, which every object literal
  inherits. All are methods that an assignment may shadow, but \<open>__proto__\<close>, whose
  setter ignores a value that is not an object.
\<close>

definition Object_prototype_names :: "string list" where
  "Object_prototype_names =
     [''constructor'', ''__defineGetter__'', ''__defineSetter__'', ''hasOwnProperty'',
      ''__lookupGetter__'', ''__lookupSetter__'', ''isPrototypeOf'', ''propertyIsEnumerable'',
      ''toString'', ''valueOf'', ''__proto__'', ''toLocaleString'']"

section \<open>consensus.ts\<close>

text \<open>
  The object \<open>counts\<close>: the four properties of the literal, and the properties that the
  loop adds to it. The four hold counts of array elements, integers below \<open>2^32\<close>, which
  a number holds exactly.
\<close>

record counts_object =
  own_count :: "Verdict \<Rightarrow> nat"
  added :: "(string \<times> jsnum) list"

definition initial_counts :: counts_object where
  "initial_counts = \<lparr> own_count = (\<lambda>_. 0), added = [] \<rparr>"

definition Verdict_of_key :: "string \<Rightarrow> Verdict option" where
  "Verdict_of_key key =
     (if key = ''approve'' then Some Approve
      else if key = ''reject'' then Some Reject
      else if key = ''concern'' then Some Concern
      else if key = ''neutral'' then Some Neutral
      else None)"

text \<open>\<open>key in counts\<close>: the key of an own property or of an inherited one.\<close>

definition in_counts :: "counts_object \<Rightarrow> string \<Rightarrow> bool" where
  "in_counts counts key =
     (Verdict_of_key key \<noteq> None \<or> key \<in> set (map fst (added counts))
      \<or> key \<in> set Object_prototype_names)"

text \<open>
  \<open>counts[key]++\<close> for a key in \<open>counts\<close>. An own property is incremented. Of an
  inherited property the value is an object or a function, as a number \<open>NaN\<close>: the sum
  \<open>NaN\<close> becomes an own property of \<open>counts\<close>, but under the key \<open>__proto__\<close>, where
  it is ignored.
\<close>

definition increment :: "counts_object \<Rightarrow> string \<Rightarrow> counts_object" where
  "increment counts key =
     (case Verdict_of_key key of
        Some k \<Rightarrow> counts\<lparr>own_count := (own_count counts)(k := own_count counts k + 1)\<rparr>
      | None \<Rightarrow>
          if key \<in> set (map fst (added counts))
          then counts\<lparr>added := map (\<lambda>(n, x). (n, if n = key then js_add x (Num 1) else x))
                                   (added counts)\<rparr>
          else if key = ''__proto__'' then counts
          else counts\<lparr>added := added counts @ [(key, js_add NaN (Num 1))]\<rparr>)"

text \<open>The tally loop; it ends with the error when a verdict has no property key.\<close>

fun count_verdicts ::
  "platform \<Rightarrow> WorkerVerdict list \<Rightarrow> counts_object \<Rightarrow> js_error + counts_object" where
  "count_verdicts P [] counts = Inr counts"
| "count_verdicts P (v # vs) counts =
     (case property_key P (verdict v) of
        None \<Rightarrow> Inl TypeError
      | Some key \<Rightarrow>
          count_verdicts P vs (if in_counts counts key then increment counts key else counts))"

definition decide :: "(Verdict \<Rightarrow> nat) \<Rightarrow> FinalVerdict" where
  "decide counts =
     (if counts Reject > 0 \<and> counts Reject \<ge> counts Approve then FReject
      else if counts Approve > counts Concern + counts Reject then FApprove
      else if counts Concern > 0 \<or> counts Reject > 0 then FConcern
      else FMixed)"

text \<open>\<open>Object.values(counts)\<close>, in the order of creation, and their maximum.\<close>

definition Object_values :: "counts_object \<Rightarrow> jsnum list" where
  "Object_values counts =
     map (\<lambda>k. Num (of_nat (own_count counts k))) [Approve, Reject, Concern, Neutral]
     @ map snd (added counts)"

definition maxCount :: "counts_object \<Rightarrow> jsnum" where
  "maxCount counts = Math_max (Object_values counts)"

definition agreement_of :: "jsnum \<Rightarrow> nat \<Rightarrow> jsnum" where
  "agreement_of m n = Math_round (js_mul (js_div m (Num (of_nat n))) (Num 100))"

definition avgConfidence :: "WorkerVerdict list \<Rightarrow> jsnum" where
  "avgConfidence vs =
     js_div (foldl (\<lambda>sum v. js_add sum (confidence v)) (Num 0) vs) (Num (of_nat (length vs)))"

definition confidence_of :: "jsnum \<Rightarrow> jsnum \<Rightarrow> jsnum" where
  "confidence_of avg agr = Math_round (js_mul avg (js_div agr (Num 100)))"

definition is_dissenting :: "FinalVerdict \<Rightarrow> WorkerVerdict \<Rightarrow> bool" where
  "is_dissenting fv v =
     (if fv = FApprove then verdict v \<noteq> JString ''approve''
      else if fv = FReject then verdict v \<noteq> JString ''reject''
      else if fv = FConcern
      then verdict v \<noteq> JString ''concern'' \<and> verdict v \<noteq> JString ''reject''
      else False)"

definition summaryParts :: "nat \<Rightarrow> FinalVerdict \<Rightarrow> jsnum \<Rightarrow> nat \<Rightarrow> string list" where
  "summaryParts n fv agr nconcerns =
     (if n = 1
      then [''Single worker analysis: '' @ toUpperCase (FinalVerdict_str fv) @ ''.'']
      else [decimal n @ '' workers analyzed this session.'',
            (if agr = Num 100
             then ''Unanimous verdict: '' @ toUpperCase (FinalVerdict_str fv) @ ''.''
             else rounded_text agr @ ''% agreement on verdict: ''
                    @ toUpperCase (FinalVerdict_str fv) @ ''.'')])
     @ (if nconcerns > 0
        then [decimal nconcerns @ '' concern'' @ (if nconcerns > 1 then ''s'' else '''')
                @ '' raised.'']
        else [])"

definition calculateConsensus :: "platform \<Rightarrow> WorkerVerdict list \<Rightarrow> js_error + ConsensusResult" where
  "calculateConsensus P verdicts =
     (if length verdicts = 0 then
        Inr \<lparr> finalVerdict = FMixed, consensus_confidence = Num 0, agreement = Num 0,
              consensus_summary = ''No worker verdicts available'',
              allConcerns = [], allRecommendations = [], dissenting = [] \<rparr>
      else
        (case count_verdicts P verdicts initial_counts of
           Inl e \<Rightarrow> Inl e
         | Inr counts \<Rightarrow>
             let fv = decide (own_count counts);
                 agr = agreement_of (maxCount counts) (length verdicts);
                 conf = confidence_of (avgConfidence verdicts) agr;
                 cs = new_Set (concat (map concerns verdicts));
                 rs = new_Set (concat (map recommendations verdicts))
             in Inr \<lparr> finalVerdict = fv, consensus_confidence = conf, agreement = agr,
                      consensus_summary =
                        join '' '' (summaryParts (length verdicts) fv agr (length cs)),
                      allConcerns = cs, allRecommendations = rs,
                      dissenting = filter (is_dissenting fv) verdicts \<rparr>))"

section \<open>String operations\<close>

text \<open>\<open>s.trim()\<close>, on the white space that a one-byte character can be.\<close>

definition is_space :: "char \<Rightarrow> bool" where
  "is_space c = ((of_char c :: nat) \<in> {9, 10, 11, 12, 13, 32, 160})"

definition trim :: "string \<Rightarrow> string" where
  "trim s = rev (dropWhile is_space (rev (dropWhile is_space s)))"

text \<open>\<open>s.split(sep)\<close> for a separator of one character.\<close>

fun split :: "char \<Rightarrow> string \<Rightarrow> string list" where
  "split sep [] = [[]]"
| "split sep (c # cs) =
     (if c = sep then [] # split sep cs
      else (case split sep cs of [] \<Rightarrow> [[c]] | l # ls \<Rightarrow> (c # l) # ls))"

text \<open>The first occurrence of \<open>pat\<close> in \<open>s\<close>: what precedes it and what follows it.\<close>

fun find_sub :: "string \<Rightarrow> string \<Rightarrow> (string \<times> string) option" where
  "find_sub pat [] = (if pat = [] then Some ([], []) else None)"
| "find_sub pat (c # cs) =
     (if prefix pat (c # cs) then Some ([], drop (length pat) (c # cs))
      else map_option (\<lambda>(b, a). (c # b, a)) (find_sub pat cs))"

section \<open>session.ts\<close>

text \<open>The loop of \<open>parseSession\<close> over the lines; a line that throws is skipped.\<close>

fun collect_messages :: "platform \<Rightarrow> string list \<Rightarrow> SessionMessage list \<Rightarrow> SessionMessage list" where
  "collect_messages P [] msgs = msgs"
| "collect_messages P (line # lines) msgs =
     collect_messages P lines
       (case JSON_parse_message P line of
          None \<Rightarrow> msgs
        | Some parsed \<Rightarrow>
            if message parsed \<noteq> None \<and> (type parsed = ''user'' \<or> type parsed = ''assistant'')
               \<and> isMeta parsed \<noteq> Some True
            then msgs @ [parsed] else msgs)"

definition valid_timestamps :: "platform \<Rightarrow> SessionMessage list \<Rightarrow> int list" where
  "valid_timestamps P msgs = List.map_filter (\<lambda>m. new_Date P (timestamp m)) msgs"

text \<open>
  \<open>now_start\<close> and \<open>now_end\<close> are the values of the two \<open>new Date()\<close>. The result
  is \<open>None\<close> where reading the file throws.
\<close>

definition parseSession :: "platform \<Rightarrow> int \<Rightarrow> int \<Rightarrow> string \<Rightarrow> ParsedSession option" where
  "parseSession P now_start now_end sessionPath =
     (case readFileSync P sessionPath of
        None \<Rightarrow> None
      | Some file_content \<Rightarrow>
          let lines = filter (\<lambda>l. l \<noteq> []) (split CHR 0x0A (trim file_content));
              msgs = collect_messages P lines [];
              timestamps = valid_timestamps P msgs
          in Some \<lparr> id = path_basename P sessionPath ''.jsonl'',
                    messages = msgs,
                    session_cwd =
                      (case find (\<lambda>m. case cwd m of None \<Rightarrow> False | Some c \<Rightarrow> c \<noteq> []) msgs of
                         None \<Rightarrow> None | Some m \<Rightarrow> cwd m),
                    startTime = (case timestamps of [] \<Rightarrow> now_start | t # _ \<Rightarrow> t),
                    endTime = (if timestamps = [] then now_end else last timestamps) \<rparr>)"

record ExtractOptions =
  maxMessages :: "int option"
  maxChars :: "int option"

definition truncation_marker :: string where
  "truncation_marker = ''[...earlier messages truncated]\<newline>\<newline>''"

definition format_message :: "SessionMessage \<Rightarrow> string" where
  "format_message m =
     (if type m = ''user'' then ''Human'' else ''Assistant'') @ '': ''
       @ (case message m of None \<Rightarrow> [] | Some msg \<Rightarrow> content msg)"

definition formatted_text :: "ParsedSession \<Rightarrow> int \<Rightarrow> string" where
  "formatted_text session maxMessages' =
     join ''\<newline>\<newline>'' (map format_message (slice (messages session) (- maxMessages')))"

definition extractContext :: "ParsedSession \<Rightarrow> ExtractOptions \<Rightarrow> string" where
  "extractContext session options =
     (let maxMessages' = (case maxMessages options of None \<Rightarrow> 30 | Some k \<Rightarrow> k);
          maxChars' = (case maxChars options of None \<Rightarrow> 60000 | Some k \<Rightarrow> k);
          formatted = formatted_text session maxMessages'
      in if int (length formatted) > maxChars'
         then truncation_marker @ slice formatted (- maxChars')
         else formatted)"

section \<open>workers.ts\<close>

record spawn_call =
  command :: string
  args :: "string list"
  env :: "string \<rightharpoonup> string"

text \<open>
  What the child process and the timer do after the spawn, in the order in which the event
  loop delivers it.
\<close>

datatype child_event =
  Stdout_data string | Stderr_data string | Timer_fired | Close "int option" | Error_event string

record child_state =
  stdout :: string
  stderr :: string
  timedOut :: bool
  timer_pending :: bool
  kill_signals :: "string list"
  resolved :: "WorkerResult option"

definition initial_child_state :: child_state where
  "initial_child_state =
     \<lparr> stdout = [], stderr = [], timedOut = False, timer_pending = True,
       kill_signals = [], resolved = None \<rparr>"

text \<open>A promise keeps the first value it is resolved with.\<close>

definition resolve :: "WorkerResult \<Rightarrow> child_state \<Rightarrow> child_state" where
  "resolve r s = (case resolved s of None \<Rightarrow> s\<lparr>resolved := Some r\<rparr> | Some _ \<Rightarrow> s)"

definition exit_code_text :: "int option \<Rightarrow> string" where
  "exit_code_text code =
     ''Exit code '' @ (case code of None \<Rightarrow> ''null'' | Some c \<Rightarrow> number_text c)"

fun handle_event :: "child_state \<Rightarrow> child_event \<Rightarrow> child_state" where
  "handle_event s (Stdout_data d) = s\<lparr>stdout := stdout s @ d\<rparr>"
| "handle_event s (Stderr_data d) = s\<lparr>stderr := stderr s @ d\<rparr>"
| "handle_event s Timer_fired =
     (if timer_pending s
      then s\<lparr>timedOut := True, kill_signals := kill_signals s @ [''SIGTERM''],
             timer_pending := False\<rparr>
      else s)"
| "handle_event s (Close code) =
     resolve \<lparr> success = (code = Some 0 \<and> \<not> timedOut s), output' = stdout s,
               error = (if timedOut s then Some ''Worker timed out''
                        else if code \<noteq> Some 0
                        then Some (if stderr s \<noteq> [] then stderr s else exit_code_text code)
                        else None) \<rparr>
       (s\<lparr>timer_pending := False\<rparr>)"
| "handle_event s (Error_event msg) =
     resolve \<lparr> success = False, output' = stdout s, error = Some msg \<rparr>
       (s\<lparr>timer_pending := False\<rparr>)"

text \<open>
  The outcome of a call of \<open>spawnWorker\<close>: the processes it spawned, the signals it sent,
  the delay of the timer it set, and the value of the promise (\<open>None\<close> while it is
  pending).
\<close>

record spawn_outcome =
  spawned :: "spawn_call list"
  signals :: "string list"
  timer_ms :: "nat option"
  result :: "WorkerResult option"

definition wrapperPath :: "platform \<Rightarrow> SpawnWorkerOptions \<Rightarrow> string" where
  "wrapperPath P options =
     path_join P (case binDir options of None \<Rightarrow> DEFAULT_BIN_DIR P | Some d \<Rightarrow> d)
       (opt_variant options)"

definition variantExists :: "platform \<Rightarrow> string \<Rightarrow> string option \<Rightarrow> bool" where
  "variantExists P variant' binDir' =
     existsSync P (path_join P (case binDir' of None \<Rightarrow> DEFAULT_BIN_DIR P | Some d \<Rightarrow> d) variant')"

definition spawnWorker :: "platform \<Rightarrow> SpawnWorkerOptions \<Rightarrow> child_event list \<Rightarrow> spawn_outcome" where
  "spawnWorker P options events =
     (if \<not> existsSync P (wrapperPath P options) then
        \<lparr> spawned = [], signals = [], timer_ms = None,
          result = Some \<lparr> success = False, output' = [],
                          error = Some (''Variant \"'' @ opt_variant options @ ''\" not found at ''
                                        @ wrapperPath P options) \<rparr> \<rparr>
      else
        let s = foldl handle_event initial_child_state events
        in \<lparr> spawned = [\<lparr> command = wrapperPath P options,
                          args = [''--print'', ''-p'', prompt options],
                          env = (process_env P)(''CC_MIRROR_SPLASH'' \<mapsto> ''0'') \<rparr>],
             signals = kill_signals s,
             timer_ms = Some (case timeout options of None \<Rightarrow> 120000 | Some t \<Rightarrow> t),
             result = resolved s \<rparr>)"

text \<open>
  The match of \<open>/\{[\s\S]*?"verdict"[\s\S]*?\}/\<close>: from the first brace, through the first
  \<open>"verdict"\<close> after it, to the first closing brace after that.
\<close>

definition match_verdict_object :: "string \<Rightarrow> string option" where
  \<open>match_verdict_object output =
     (case dropWhile (\<lambda>c. c \<noteq> CHR ''{'') output of
        [] \<Rightarrow> None
      | b # rest \<Rightarrow>
          (case find_sub ''"verdict"'' rest of
             None \<Rightarrow> None
           | Some (pre, post) \<Rightarrow>
               (case find_sub ''}'' post of
                  None \<Rightarrow> None
                | Some (mid, _) \<Rightarrow> Some (''{'' @ pre @ ''"verdict"'' @ mid @ ''}''))))\<close>

text \<open>
  What \<open>parseWorkerOutput\<close> returns when it is not \<open>null\<close>; \<open>p_verdict = None\<close> is an
  \<open>undefined\<close> verdict. The fields hold decoded values, whatever their declared types.
\<close>

record ParsedVerdict =
  p_verdict :: "json option"
  p_confidence :: jsnum
  p_summary :: json
  p_concerns :: "json list"
  p_recommendations :: "json list"

text \<open>The object literal that \<open>parseWorkerOutput\<close> returns for a decoded value.\<close>

definition verdict_fields :: "json \<Rightarrow> ParsedVerdict" where
  "verdict_fields parsed =
     \<lparr> p_verdict = get_prop parsed ''verdict'',
       p_confidence = (case get_prop parsed ''confidence'' of Some (JNumber c) \<Rightarrow> c | _ \<Rightarrow> Num 50),
       p_summary = coalesce (get_prop parsed ''summary'') (JString []),
       p_concerns = (case get_prop parsed ''concerns'' of Some (JArray xs) \<Rightarrow> xs | _ \<Rightarrow> []),
       p_recommendations =
         (case get_prop parsed ''recommendations'' of Some (JArray xs) \<Rightarrow> xs | _ \<Rightarrow> []) \<rparr>"

text \<open>
  Reading a property of \<open>null\<close> throws, inside the \<open>try\<close> as a failed decoding does.
\<close>

definition parseWorkerOutput :: "platform \<Rightarrow> string \<Rightarrow> ParsedVerdict option" where
  "parseWorkerOutput P output =
     (case match_verdict_object output of
        None \<Rightarrow> None
      | Some jsonMatch \<Rightarrow>
          (case JSON_parse P jsonMatch of
             None \<Rightarrow> None
           | Some parsed \<Rightarrow> if parsed = JNull then None else Some (verdict_fields parsed)))"

text \<open>The object that \<open>runWorker\<close> builds from the result of the spawn.\<close>

definition verdict_of_result :: "platform \<Rightarrow> WorkerConfig \<Rightarrow> WorkerResult \<Rightarrow> WorkerVerdict" where
  "verdict_of_result P config res =
     (let parsed = parseWorkerOutput P (output' res)
      in \<lparr> worker = name config,
           verdict = coalesce (case parsed of None \<Rightarrow> None | Some p \<Rightarrow> p_verdict p)
                       (JString ''neutral''),
           confidence = (case parsed of None \<Rightarrow> Num 0 | Some p \<Rightarrow> p_confidence p),
           summary = coalesce (map_option p_summary parsed)
                       (coalesce (map_option JString (error res))
                          (JString ''Worker did not provide a verdict'')),
           concerns = (case parsed of None \<Rightarrow> [] | Some p \<Rightarrow> p_concerns p),
           recommendations = (case parsed of None \<Rightarrow> [] | Some p \<Rightarrow> p_recommendations p),
           rawOutput = output' res \<rparr>)"

record RunWorkerOptions =
  run_binDir :: "string option"
  run_timeout :: "nat option"

text \<open>\<open>runWorker\<close> awaits the promise of \<open>spawnWorker\<close>: \<open>None\<close> while that is pending.\<close>

definition runWorker ::
  "platform \<Rightarrow> WorkerConfig \<Rightarrow> string \<Rightarrow> RunWorkerOptions \<Rightarrow> child_event list
     \<Rightarrow> WorkerVerdict option" where
  "runWorker P config context options events =
     (let prompt' = String_replace P (promptTemplate config) ''{context}'' context;
          outcome = spawnWorker P
            \<lparr> opt_variant = variant config, prompt = prompt',
              timeout = run_timeout options, binDir = run_binDir options \<rparr> events
      in map_option (verdict_of_result P config) (result outcome))"

text \<open>The closed set of the type \<open>Verdict\<close>, among decoded values.\<close>

definition Verdict_of_json :: "json \<Rightarrow> Verdict option" where
  "Verdict_of_json j =
     (if j = JString ''approve'' then Some Approve
      else if j = JString ''reject'' then Some Reject
      else if j = JString ''concern'' then Some Concern
      else if j = JString ''neutral'' then Some Neutral
      else None)"

section \<open>Quantities of the specification\<close>

text \<open>
  The number of verdicts of a kind, the largest tally, and the exact mean of confidences
  that are finite.
\<close>

definition tally :: "WorkerVerdict list \<Rightarrow> Verdict \<Rightarrow> nat" where
  "tally vs k = length (filter (\<lambda>v. verdict v = JString (Verdict_str k)) vs)"

definition max_tally :: "WorkerVerdict list \<Rightarrow> nat" where
  "max_tally vs = Max {tally vs Approve, tally vs Reject, tally vs Concern, tally vs Neutral}"

fun finite_value :: "jsnum \<Rightarrow> rat" where
  "finite_value (Num c) = c"
| "finite_value _ = 0"

definition mean_confidence :: "WorkerVerdict list \<Rightarrow> rat" where
  "mean_confidence vs = sum_list (map (\<lambda>v. finite_value (confidence v)) vs) / of_nat (length vs)"

text \<open>Every verdict is a string.\<close>

fun is_string :: "json \<Rightarrow> bool" where
  "is_string (JString _) = True"
| "is_string _ = False"

definition string_verdicts :: "WorkerVerdict list \<Rightarrow> bool" where
  "string_verdicts vs = list_all (\<lambda>v. is_string (verdict v)) vs"

text \<open>
  Every verdict is a string that does not name a method inherited from
  \<open>Object.prototype\<close>: one of the four kinds is such a string.
\<close>

definition inherited_method :: "string \<Rightarrow> bool" where
  "inherited_method key = (key \<in> set Object_prototype_names \<and> key \<noteq> ''__proto__'')"

fun plain_verdict :: "json \<Rightarrow> bool" where
  "plain_verdict (JString s) = (\<not> inherited_method s)"
| "plain_verdict _ = False"

definition plain_verdicts :: "WorkerVerdict list \<Rightarrow> bool" where
  "plain_verdicts vs = list_all (\<lambda>v. plain_verdict (verdict v)) vs"

text \<open>Every confidence is an integer between 0 and 100.\<close>

fun is_percent :: "jsnum \<Rightarrow> bool" where
  "is_percent (Num c) = (of_int \<lfloor>c\<rfloor> = c \<and> 0 \<le> c \<and> c \<le> 100)"
| "is_percent _ = False"

definition percent_confidences :: "WorkerVerdict list \<Rightarrow> bool" where
  "percent_confidences vs = list_all (\<lambda>v. is_percent (confidence v)) vs"

text \<open>
  The records of a session file that \<open>parseSession\<close> retains: the lines that decode, of
  type user or assistant, carrying a message, not flagged as meta.
\<close>

definition retained :: "platform \<Rightarrow> string \<Rightarrow> SessionMessage list" where
  "retained P file_content =
     filter (\<lambda>m. (type m = ''user'' \<or> type m = ''assistant'') \<and> message m \<noteq> None
                 \<and> isMeta m \<noteq> Some True)
       (List.map_filter (JSON_parse_message P)
          (filter (\<lambda>l. l \<noteq> []) (split CHR 0x0A (trim file_content))))"

text \<open>
  The verdict that the output of a worker carries: the property \<open>verdict\<close> of the value
  that the text matched in the output decodes to.
\<close>

definition decoded_verdict :: "platform \<Rightarrow> string \<Rightarrow> json option" where
  "decoded_verdict P out =
     (case match_verdict_object out of
        None \<Rightarrow> None
      | Some m \<Rightarrow> (case JSON_parse P m of None \<Rightarrow> None | Some parsed \<Rightarrow> get_prop parsed ''verdict''))"

text \<open>What a trace of events writes to the two streams, and the events that end a run.\<close>

fun captured_stdout :: "child_event list \<Rightarrow> string" where
  "captured_stdout [] = []"
| "captured_stdout (Stdout_data d # es) = d @ captured_stdout es"
| "captured_stdout (_ # es) = captured_stdout es"

fun captured_stderr :: "child_event list \<Rightarrow> string" where
  "captured_stderr [] = []"
| "captured_stderr (Stderr_data d # es) = d @ captured_stderr es"
| "captured_stderr (_ # es) = captured_stderr es"

fun settles :: "child_event \<Rightarrow> bool" where
  "settles (Close _) = True"
| "settles (Error_event _) = True"
| "settles _ = False"

section \<open>Sample inputs\<close>

definition worker_verdict :: "Verdict \<Rightarrow> rat \<Rightarrow> WorkerVerdict" where
  "worker_verdict k c =
     \<lparr> worker = Skeptic, verdict = JString (Verdict_str k), confidence = Num c,
       summary = JString [], concerns = [], recommendations = [], rawOutput = [] \<rparr>"

definition three_workers :: "WorkerVerdict list" where
  "three_workers = [worker_verdict Approve 90, worker_verdict Approve 80, worker_verdict Reject 70]"

definition ten_workers :: "WorkerVerdict list" where
  "ten_workers = replicate 7 (worker_verdict Approve 45) @ replicate 3 (worker_verdict Neutral 45)"

definition forty_workers :: "WorkerVerdict list" where
  "forty_workers = replicate 23 (worker_verdict Approve 50) @ replicate 17 (worker_verdict Neutral 50)"

text \<open>
  The output of a worker that gives the verdict \<open>toString\<close>, and what \<open>runWorker\<close>
  makes of it.
\<close>

definition toString_output :: string where
  \<open>toString_output = ''{"verdict":"toString","confidence":50}''\<close>

definition toString_verdict :: WorkerVerdict where
  "toString_verdict =
     \<lparr> worker = Skeptic, verdict = JString ''toString'', confidence = Num 50,
       summary = JString [], concerns = [], recommendations = [],
       rawOutput = toString_output \<rparr>"

definition line_a :: string where
  \<open>line_a = ''{"type":"user","message":{"role":"user","content":"hi"},"sessionId":"s","uuid":"a","timestamp":"1970-01-01T00:00:02.000Z"}''\<close>

definition line_b :: string where
  \<open>line_b = ''{"type":"assistant","message":{"role":"assistant","content":"hello"},"sessionId":"s","uuid":"b","timestamp":"1970-01-01T00:00:01.000Z"}''\<close>

definition message_a :: SessionMessage where
  "message_a =
     \<lparr> type = ''user'', message = Some \<lparr> role = ''user'', content = ''hi'' \<rparr>,
       sessionId = ''s'', uuid = ''a'', timestamp = ''1970-01-01T00:00:02.000Z'',
       cwd = None, isMeta = None \<rparr>"

definition message_b :: SessionMessage where
  "message_b =
     \<lparr> type = ''assistant'', message = Some \<lparr> role = ''assistant'', content = ''hello'' \<rparr>,
       sessionId = ''s'', uuid = ''b'', timestamp = ''1970-01-01T00:00:01.000Z'',
       cwd = None, isMeta = None \<rparr>"

definition session_file_text :: string where
  "session_file_text = line_a @ ''\<newline>'' @ line_b @ ''\<newline>''"

definition ordered_file_text :: string where
  "ordered_file_text = line_b @ ''\<newline>'' @ line_a @ ''\<newline>''"

text \<open>
  A machine with one wrapper, \<open>/bin/zai\<close>, and two session files of the two lines
  above: \<open>s.jsonl\<close> with the later record first, \<open>t.jsonl\<close> with the earlier
  record first. The decoders and the key conversion are the platform's on the texts and
  the value listed.
\<close>

definition test_platform :: platform where
  \<open>test_platform =
     \<lparr> JSON_parse =
         (\<lambda>s. if s = ''{"verdict":"maybe"}'' then Some (JObject [(''verdict'', JString ''maybe'')])
              else if s = ''{"verdict":"approve","confidence":90}''
              then Some (JObject [(''verdict'', JString ''approve''),
                                  (''confidence'', JNumber (Num 90))])
              else if s = toString_output
              then Some (JObject [(''verdict'', JString ''toString''),
                                  (''confidence'', JNumber (Num 50))])
              else None),
       JSON_parse_message =
         (\<lambda>s. if s = line_a then Some message_a else if s = line_b then Some message_b else None),
       new_Date =
         (\<lambda>s. if s = ''1970-01-01T00:00:01.000Z'' then Some 1000
              else if s = ''1970-01-01T00:00:02.000Z'' then Some 2000 else None),
       path_basename = (\<lambda>p ext. if p = ''/sessions/s.jsonl'' \<and> ext = ''.jsonl'' then ''s'' else p),
       path_join = (\<lambda>a b. a @ ''/'' @ b),
       existsSync = (\<lambda>p. p = ''/bin/zai''),
       readFileSync =
         (\<lambda>p. if p = ''/sessions/s.jsonl'' then Some session_file_text
              else if p = ''/sessions/t.jsonl'' then Some ordered_file_text else None),
       String_replace =
         (\<lambda>s pat by. case find_sub pat s of None \<Rightarrow> s | Some (b, a) \<Rightarrow> b @ by @ a),
       ToPropertyKey = (\<lambda>v. if v = JArray [JString ''approve''] then Some ''approve'' else None),
       DEFAULT_BIN_DIR = ''/bin'',
       process_env = Map.empty \<rparr>\<close>

definition one_message_session :: ParsedSession where
  "one_message_session =
     \<lparr> id = ''s'', messages = [message_a], session_cwd = None, startTime = 2000, endTime = 2000 \<rparr>"

definition zai_options :: SpawnWorkerOptions where
  "zai_options = \<lparr> opt_variant = ''zai'', prompt = ''Review'', timeout = None, binDir = None \<rparr>"

definition default_run_options :: RunWorkerOptions where
  "default_run_options = \<lparr> run_binDir = None, run_timeout = None \<rparr>"

definition zai_config :: WorkerConfig where
  "zai_config =
     \<lparr> name = Skeptic, variant = ''zai'', promptTemplate = ''Review: {context}'',
       description = ''Questions assumptions and looks for hidden issues'' \<rparr>"

section \<open>Rounding to binary64\<close>

lemma bitlen_powi_bounds:
  assumes "0 < p"
  shows "(2::rat) powi (bitlen p - 1) \<le> of_int p" "of_int p < (2::rat) powi (bitlen p)"
proof -
  from bitlen_bounds[OF assms] have a: "2 ^ nat (bitlen p - 1) \<le> p" and b: "p < 2 ^ nat (bitlen p)"
    by auto
  have ge1: "1 \<le> bitlen p" using assms by (auto simp: bitlen_alt_def)
  have "(of_int (2 ^ nat (bitlen p - 1)) :: rat) \<le> of_int p" using a by (simp only: of_int_le_iff)
  then show "(2::rat) powi (bitlen p - 1) \<le> of_int p"
    using ge1 by (simp add: power_int_def)
  have "(of_int p :: rat) < of_int (2 ^ nat (bitlen p))" using b by (simp only: of_int_less_iff)
  then show "of_int p < (2::rat) powi (bitlen p)"
    using ge1 by (simp add: power_int_def)
qed

lemma binade_bounds:
  assumes "x \<noteq> 0"
  shows "2 powi (binade x) \<le> \<bar>x\<bar>" "\<bar>x\<bar> < 2 powi (binade x + 1)"
proof -
  obtain p q where pq: "quotient_of \<bar>x\<bar> = (p, q)" by (cases "quotient_of \<bar>x\<bar>")
  have q: "0 < q" using pq quotient_of_denom_pos by blast
  have x: "\<bar>x\<bar> = of_int p / of_int q" using pq by (rule quotient_of_div)
  have "0 < \<bar>x\<bar>" using assms by simp
  then have p: "0 < p" using x q by (simp add: zero_less_divide_iff)
  let ?d = "bitlen p - bitlen q"
  note bp = bitlen_powi_bounds[OF p] and bq = bitlen_powi_bounds[OF q]
  have qpos: "(0::rat) < of_int q" using q by simp
  have up: "\<bar>x\<bar> < 2 powi (?d + 1)"
  proof -
    have "\<bar>x\<bar> < 2 powi (bitlen p) / of_int q" unfolding x using bp(2) qpos
      by (simp add: divide_strict_right_mono)
    also have "\<dots> \<le> 2 powi (bitlen p) / 2 powi (bitlen q - 1)"
      using bq(1) by (intro divide_left_mono) (auto simp: zero_less_power_int intro: mult_pos_pos qpos)
    also have "\<dots> = 2 powi (?d + 1)"
      by (simp add: power_int_diff[symmetric] algebra_simps)
    finally show ?thesis .
  qed
  have lo: "2 powi (?d - 1) \<le> \<bar>x\<bar>"
  proof -
    have "2 powi (?d - 1) = 2 powi (bitlen p - 1) / (2::rat) powi (bitlen q)"
      by (simp add: power_int_diff[symmetric] algebra_simps)
    also have "\<dots> \<le> of_int p / 2 powi (bitlen q)"
      using bp(1) by (intro divide_right_mono) auto
    also have "\<dots> \<le> of_int p / of_int q"
      using bq(2) p qpos by (intro divide_left_mono) (auto intro: mult_pos_pos simp: zero_less_power_int)
    finally show ?thesis unfolding x .
  qed
  have b: "binade x = (if 2 powi ?d \<le> \<bar>x\<bar> then ?d else ?d - 1)"
    by (simp add: binade_def pq Let_def)
  show "2 powi (binade x) \<le> \<bar>x\<bar>" using lo by (simp add: b)
  show "\<bar>x\<bar> < 2 powi (binade x + 1)" using up by (auto simp add: b not_le)
qed

lemma round_half_even_error: "\<bar>of_int (round_half_even y) - y\<bar> \<le> 1 / 2"
proof -
  have "of_int \<lfloor>y\<rfloor> \<le> y" "y < of_int \<lfloor>y\<rfloor> + 1" by linarith+
  then show ?thesis
    by (auto simp: round_half_even_def Let_def)
qed

lemma round_half_even_of_int [simp]: "round_half_even (of_int k) = k"
  by (simp add: round_half_even_def)

lemma subnormal_unit_le_one: "(2::rat) powi (- 1022) \<le> 1"
proof -
  have "(2::rat) powi (- 1022) \<le> 2 powi 0" by (intro power_int_increasing) auto
  then show ?thesis by simp
qed

lemma fl_error:
  "\<bar>fl x - x\<bar> \<le> (\<bar>x\<bar> + 1) * 2 powi (- 53)"
proof (cases "x = 0")
  case True
  then show ?thesis by (simp add: fl_def zero_le_power_int)
next
  case False
  define e where "e = max (binade x) (- 1022)"
  define u :: rat where "u = 2 powi (e - 52)"
  have u: "0 < u" by (simp add: u_def zero_less_power_int)
  have "fl x - x = (of_int (round_half_even (x / u)) - x / u) * u"
    using False u by (simp add: fl_def Let_def u_def[symmetric] e_def[symmetric] algebra_simps)
  then have "\<bar>fl x - x\<bar> = \<bar>of_int (round_half_even (x / u)) - x / u\<bar> * u"
    using u by (simp add: abs_mult)
  also have "\<dots> \<le> 1 / 2 * u"
    using round_half_even_error[of "x / u"] u by (intro mult_right_mono) auto
  also have "\<dots> = 2 powi e * 2 powi (- 53)"
    by (simp add: u_def power_int_diff power_int_minus field_simps)
  also have "\<dots> \<le> (\<bar>x\<bar> + 1) * 2 powi (- 53)"
  proof (intro mult_right_mono)
    show "(2::rat) powi e \<le> \<bar>x\<bar> + 1"
    proof (cases "- 1022 \<le> binade x")
      case True
      then have "e = binade x" by (simp add: e_def)
      with binade_bounds(1)[OF False] show ?thesis by simp
    next
      case False
      then have "e = - 1022" by (simp add: e_def)
      with subnormal_unit_le_one show ?thesis by simp
    qed
    show "(0::rat) \<le> 2 powi (- 53)" by (simp add: zero_le_power_int)
  qed
  finally show ?thesis .
qed

lemma binade_less:
  assumes "x \<noteq> 0" and "\<bar>x\<bar> < 2 powi k"
  shows "binade x < k"
proof (rule ccontr)
  assume "\<not> binade x < k"
  then have "(2::rat) powi k \<le> 2 powi (binade x)"
    by (intro power_int_increasing) auto
  with binade_bounds(1)[OF assms(1)] assms(2) show False by simp
qed

lemma binade_nonneg:
  assumes "1 \<le> \<bar>x\<bar>"
  shows "0 \<le> binade x"
proof (rule ccontr)
  assume "\<not> 0 \<le> binade x"
  then have "(2::rat) powi (binade x + 1) \<le> 2 powi 0"
    by (intro power_int_increasing) auto
  moreover have "x \<noteq> 0" using assms by auto
  ultimately show False using binade_bounds(2)[of x] assms by simp
qed

lemma fl_of_int:
  assumes "\<bar>i\<bar> < 2 ^ 53"
  shows "fl (of_int i) = of_int i"
proof (cases "i = 0")
  case True
  then show ?thesis by (simp add: fl_def)
next
  case False
  define x :: rat where "x = of_int i"
  have x0: "x \<noteq> 0" using False by (simp add: x_def)
  have "1 \<le> \<bar>i\<bar>" using False by simp
  then have "(of_int 1 :: rat) \<le> of_int \<bar>i\<bar>" by (simp only: of_int_le_iff)
  then have x1: "1 \<le> \<bar>x\<bar>" by (simp add: x_def)
  have m: "max (binade x) (- 1022) = binade x" using binade_nonneg[OF x1] by simp
  have "\<bar>x\<bar> < 2 powi 53"
  proof -
    have "(of_int \<bar>i\<bar> :: rat) < of_int (2 ^ 53)" using assms by (simp only: of_int_less_iff)
    then show ?thesis by (simp add: x_def)
  qed
  then have "binade x < 53" by (rule binade_less[OF x0])
  then have "0 \<le> 52 - binade x" by simp
  then obtain k :: nat where "52 - binade x = int k"
    using zero_le_imp_eq_int by blast
  then have k: "binade x - 52 = - int k" by simp
  have "x / 2 powi (binade x - 52) = of_int (i * 2 ^ k)"
    unfolding k by (simp add: power_int_minus x_def field_simps)
  then have "fl x = of_int (i * 2 ^ k) * 2 powi (binade x - 52)"
    using x0 by (simp add: fl_def Let_def m del: of_int_mult of_int_power)
  also have "\<dots> = x"
    unfolding k by (simp add: power_int_minus x_def field_simps)
  finally show ?thesis by (simp add: x_def)
qed

lemma ulp53: "(2::rat) powi (- 53) = 1 / 9007199254740992"
  by (simp add: power_int_minus inverse_eq_divide)

lemma fl_abs_error:
  assumes "\<bar>x\<bar> \<le> b"
  shows "\<bar>fl x - x\<bar> \<le> (b + 1) / 9007199254740992"
proof -
  have "\<bar>fl x - x\<bar> \<le> (\<bar>x\<bar> + 1) * 2 powi (- 53)" by (rule fl_error)
  also have "\<dots> \<le> (b + 1) * 2 powi (- 53)"
    using assms by (intro mult_right_mono) (auto simp: zero_le_power_int)
  finally show ?thesis by (simp add: ulp53)
qed

text \<open>An operation whose exact result is small does not overflow.\<close>

lemma round64_Num:
  assumes "\<bar>x\<bar> \<le> 2 ^ 60"
  shows "round64 x = Num (fl x)"
proof (cases "fl x = 0")
  case True
  then show ?thesis by (simp add: round64_def)
next
  case False
  have "\<bar>fl x - x\<bar> \<le> (2 ^ 60 + 1) / 9007199254740992" by (rule fl_abs_error[OF assms])
  with assms have "\<bar>fl x\<bar> \<le> 2 ^ 60 + (2 ^ 60 + 1) / 9007199254740992" by linarith
  also have "\<dots> < (2::rat) powi 1024" by simp
  finally have "binade (fl x) < 1024" by (rule binade_less[OF False])
  then show ?thesis using False by (simp add: round64_def Let_def)
qed

lemma agreement_error:
  assumes "0 \<le> p" "p \<le> 1"
  shows "\<bar>fl (fl p * 100) - 100 * p\<bar> < 1 / 2 ^ 44"
proof -
  define y where "y = fl p"
  have e1: "\<bar>y - p\<bar> \<le> 2 / 9007199254740992"
    unfolding y_def using fl_abs_error[of p 1] assms by simp
  then have yb: "\<bar>y * 100\<bar> \<le> 101" using assms(1,2) by linarith
  have e2: "\<bar>fl (y * 100) - y * 100\<bar> \<le> 102 / 9007199254740992"
    using fl_abs_error[OF yb] by simp
  have "\<bar>fl (y * 100) - 100 * p\<bar> \<le> 302 / 9007199254740992"
    using e1 e2 by arith
  also have "\<dots> < 1 / 2 ^ 44" by simp
  finally show ?thesis by (simp add: y_def)
qed

lemma confidence_error:
  assumes "0 \<le> s" "s \<le> 100" "0 \<le> w" "w \<le> 1"
  shows "\<bar>fl (fl s * fl w) - s * w\<bar> < 1 / 2 ^ 44"
proof -
  define A where "A = fl s"
  define B where "B = fl w"
  let ?u = "1 / 9007199254740992 :: rat"
  have eA: "\<bar>A - s\<bar> \<le> 101 * ?u"
    unfolding A_def using fl_abs_error[of s 100] assms by simp
  have eB: "\<bar>B - w\<bar> \<le> 2 * ?u"
    unfolding B_def using fl_abs_error[of w 1] assms by simp
  have Ab: "\<bar>A\<bar> \<le> 101" using eA assms by linarith
  have Bb: "\<bar>B\<bar> \<le> 101 / 100" using eB assms by linarith
  have ABb: "\<bar>A * B\<bar> \<le> 101 * (101 / 100)"
    unfolding abs_mult using Ab Bb by (intro mult_mono) auto
  have eP: "\<bar>fl (A * B) - A * B\<bar> \<le> (101 * (101 / 100) + 1) * ?u"
    using fl_abs_error[OF ABb] by simp
  have "A * B - s * w = A * (B - w) + w * (A - s)" by (simp add: algebra_simps)
  then have "\<bar>A * B - s * w\<bar> \<le> \<bar>A\<bar> * \<bar>B - w\<bar> + \<bar>w\<bar> * \<bar>A - s\<bar>"
    by (metis abs_mult abs_triangle_ineq)
  also have "\<dots> \<le> 101 * (2 * ?u) + 1 * (101 * ?u)"
    using Ab eB eA assms by (intro add_mono mult_mono) auto
  finally have eAB: "\<bar>A * B - s * w\<bar> \<le> 303 * ?u" by simp
  have "\<bar>fl (A * B) - s * w\<bar> \<le> \<bar>fl (A * B) - A * B\<bar> + \<bar>A * B - s * w\<bar>"
    by arith
  also have "\<dots> \<le> (101 * (101 / 100) + 1) * ?u + 303 * ?u" using eP eAB by (intro add_mono)
  also have "\<dots> < 1 / 2 ^ 44" by simp
  finally show ?thesis by (simp add: A_def B_def)
qed

lemma round_stable:
  fixes a b :: int and x z d :: rat
  assumes x: "x = of_int a / of_int b" and b: "0 < b"
    and d: "\<bar>z - x\<bar> < d" "d \<le> 1 / (2 * of_int b)"
  shows "\<lfloor>z + 1 / 2\<rfloor> = \<lfloor>x + 1 / 2\<rfloor>
         \<or> (of_int \<lfloor>x + 1 / 2\<rfloor> = x + 1 / 2 \<and> \<lfloor>z + 1 / 2\<rfloor> = \<lfloor>x + 1 / 2\<rfloor> - 1)"
proof -
  define k where "k = \<lfloor>x + 1 / 2\<rfloor>"
  have kx: "of_int k \<le> x + 1 / 2" "x + 1 / 2 < of_int k + 1" unfolding k_def by linarith+
  have mx: "\<lfloor>x + 1 / 2\<rfloor> = k" by (simp add: k_def)
  have bpos: "(0::rat) < of_int b" using b by simp
  have d1: "d \<le> 1 / 2"
  proof -
    have "1 \<le> b" using b by simp
    then have "(of_int 1 :: rat) \<le> of_int b" by (simp only: of_int_le_iff)
    then have "1 / (2 * rat_of_int b) \<le> 1 / 2" using bpos by (simp add: field_simps)
    with d show ?thesis by simp
  qed
  \<comment> \<open>the distance of \<open>x + 1/2\<close> to an integer is a multiple of \<open>1 / (2 b)\<close>\<close>
  have mult: "x + 1 / 2 - of_int j = of_int (2 * a + b - 2 * b * j) / (2 * of_int b)" for j
    using bpos by (simp add: x field_simps)
  have far: "x + 1 / 2 \<noteq> of_int j \<Longrightarrow> 1 / (2 * of_int b) \<le> \<bar>x + 1 / 2 - of_int j\<bar>" for j
  proof -
    assume ne: "x + 1 / 2 \<noteq> of_int j"
    let ?n = "2 * a + b - 2 * b * j"
    have "?n \<noteq> 0"
    proof
      assume "?n = 0"
      then have "x + 1 / 2 - of_int j = 0" by (simp only: mult[of j] of_int_0 div_0)
      with ne show False by simp
    qed
    then have "1 \<le> \<bar>?n\<bar>" by simp
    then have "(of_int 1 :: rat) \<le> of_int \<bar>?n\<bar>" by (simp only: of_int_le_iff)
    then have "(1::rat) \<le> \<bar>of_int ?n\<bar>" by (simp only: of_int_abs of_int_1)
    then have "1 / (2 * of_int b) \<le> \<bar>of_int ?n\<bar> / (2 * rat_of_int b)"
      using bpos by (intro divide_right_mono) auto
    also have "\<dots> = \<bar>x + 1 / 2 - of_int j\<bar>"
      unfolding mult[of j] using bpos by (simp add: abs_divide del: of_int_diff of_int_add of_int_mult)
    finally show ?thesis .
  qed
  show ?thesis
  proof (cases "x + 1 / 2 = of_int k")
    case True
    have zk: "of_int k - 1 / 2 < z + 1 / 2" "z + 1 / 2 < of_int k + 1 / 2"
      using True d d1 by linarith+
    show ?thesis
    proof (cases "z + 1 / 2 < of_int k")
      case True
      have km: "(of_int (k - 1) :: rat) = of_int k - 1" by simp
      have "of_int (k - 1) \<le> z + 1 / 2" "z + 1 / 2 < of_int (k - 1) + 1"
        unfolding km using zk True by linarith+
      then have "\<lfloor>z + 1 / 2\<rfloor> = k - 1" by (rule floor_unique)
      then show ?thesis unfolding mx using \<open>x + 1 / 2 = of_int k\<close> by simp
    next
      case False
      have "of_int k \<le> z + 1 / 2" "z + 1 / 2 < of_int k + 1"
        using zk False by linarith+
      then have "\<lfloor>z + 1 / 2\<rfloor> = k" by (rule floor_unique)
      then show ?thesis unfolding mx by simp
    qed
  next
    case False
    have "x + 1 / 2 \<noteq> of_int (k + 1)" using kx by simp
    from far[OF False] far[OF this] have "of_int k + d \<le> x + 1 / 2" "x + 1 / 2 + d \<le> of_int k + 1"
      using kx d by linarith+
    then have "of_int k \<le> z + 1 / 2" "z + 1 / 2 < of_int k + 1"
      using d by linarith+
    then have "\<lfloor>z + 1 / 2\<rfloor> = k" by (rule floor_unique)
    then show ?thesis unfolding mx by simp
  qed
qed

section \<open>The consensus engine\<close>

lemma Verdict_of_key_iff: "Verdict_of_key s = Some k \<longleftrightarrow> s = Verdict_str k"
  by (cases k) (auto simp: Verdict_of_key_def)

lemma count_step_own:
  "own_count (if in_counts c s then increment c s else c) k
     = own_count c k + (if s = Verdict_str k then 1 else 0)"
proof (cases "Verdict_of_key s")
  case None
  then have "s \<noteq> Verdict_str k" using Verdict_of_key_iff[of s k] by auto
  then show ?thesis using None by (simp add: increment_def)
next
  case (Some k')
  then have s: "s = Verdict_str k'" by (simp add: Verdict_of_key_iff)
  have "s = Verdict_str k \<longleftrightarrow> k = k'" unfolding s by (cases k; cases k') simp_all
  then show ?thesis using Some by (simp add: increment_def in_counts_def)
qed

lemma count_step_added:
  assumes "plain_verdict (JString s)" "added c = []"
  shows "added (if in_counts c s then increment c s else c) = []"
proof (cases "Verdict_of_key s")
  case None
  from assms(1) have "s \<notin> set Object_prototype_names \<or> s = ''__proto__''"
    by (simp add: inherited_method_def)
  then show ?thesis using None assms(2) by (auto simp: increment_def in_counts_def)
next
  case (Some k)
  then show ?thesis using assms(2) by (simp add: increment_def)
qed

lemma count_verdicts_strings:
  assumes "string_verdicts vs"
  shows "\<exists>c'. count_verdicts P vs c = Inr c' \<and> (\<forall>k. own_count c' k = own_count c k + tally vs k)"
  using assms
proof (induction vs arbitrary: c)
  case Nil
  then show ?case by (simp add: tally_def)
next
  case (Cons v vs)
  from Cons.prems obtain s where s: "verdict v = JString s" and rest: "string_verdicts vs"
    by (cases "verdict v") (auto simp: string_verdicts_def)
  let ?c = "if in_counts c s then increment c s else c"
  from Cons.IH[OF rest, of ?c] obtain c' where
    c': "count_verdicts P vs ?c = Inr c'" "\<And>k. own_count c' k = own_count ?c k + tally vs k"
    by blast
  have "own_count c' k = own_count c k + tally (v # vs) k" for k
    unfolding c'(2) count_step_own by (simp add: tally_def s)
  with c'(1) show ?case by (simp add: s)
qed

lemma count_verdicts_plain:
  assumes "plain_verdicts vs" "added c = []"
  shows "\<exists>c'. count_verdicts P vs c = Inr c' \<and> added c' = []"
  using assms
proof (induction vs arbitrary: c)
  case Nil
  then show ?case by simp
next
  case (Cons v vs)
  from Cons.prems(1) obtain s where s: "verdict v = JString s" "plain_verdict (JString s)"
    and rest: "plain_verdicts vs"
    by (cases "verdict v") (auto simp: plain_verdicts_def)
  let ?c = "if in_counts c s then increment c s else c"
  have "added ?c = []" by (rule count_step_added[OF s(2) Cons.prems(2)])
  from Cons.IH[OF rest this] show ?case by (simp add: s(1))
qed

lemma plain_is_string: "plain_verdicts vs \<Longrightarrow> string_verdicts vs"
proof -
  have "plain_verdict j \<Longrightarrow> is_string j" for j by (cases j) simp_all
  then show "plain_verdicts vs \<Longrightarrow> string_verdicts vs"
    by (induction vs) (simp_all add: plain_verdicts_def string_verdicts_def)
qed

lemma tally_le_length: "tally vs k \<le> length vs"
  by (simp add: tally_def)

lemma max_tally_le_length: "max_tally vs \<le> length vs"
  by (simp add: max_tally_def tally_le_length)

lemma Math_max_counts:
  "Math_max [Num (of_nat a), Num (of_nat b), Num (of_nat c), Num (of_nat d)]
     = Num (of_nat (Max {a, b, c, d}))"
proof -
  define step where
    "step = (\<lambda>m x. if m = NaN \<or> x = NaN then NaN else if js_less m x then x else m)"
  have first: "step NegInf (Num x) = Num x" for x by (simp add: step_def)
  have next_one: "step (Num (of_nat x)) (Num (of_nat y)) = Num (of_nat (max x y))" for x y
    by (simp add: step_def max_def)
  have "Math_max [Num (of_nat a), Num (of_nat b), Num (of_nat c), Num (of_nat d)]
          = step (step (step (step NegInf (Num (of_nat a))) (Num (of_nat b))) (Num (of_nat c)))
              (Num (of_nat d))"
    by (simp add: Math_max_def step_def)
  also have "\<dots> = Num (of_nat (max (max (max a b) c) d))"
    by (simp only: first next_one)
  also have "max (max (max a b) c) d = Max {a, b, c, d}"
    by (simp add: max.commute max.left_commute)
  finally show ?thesis .
qed

text \<open>
  The result for a non-empty list of string verdicts: the four counts are the tallies. When
  no verdict names an inherited method, the loop adds no property.
\<close>

lemma calculateConsensus_strings:
  assumes "vs \<noteq> []" "string_verdicts vs"
  shows "\<exists>r counts. calculateConsensus P vs = Inr r
           \<and> count_verdicts P vs initial_counts = Inr counts
           \<and> own_count counts = tally vs
           \<and> finalVerdict r = decide (tally vs)
           \<and> agreement r = agreement_of (maxCount counts) (length vs)
           \<and> consensus_confidence r = confidence_of (avgConfidence vs) (agreement r)
           \<and> dissenting r = filter (is_dissenting (finalVerdict r)) vs"
proof -
  from count_verdicts_strings[OF assms(2), of P initial_counts] obtain counts where
    c: "count_verdicts P vs initial_counts = Inr counts"
       "\<And>k. own_count counts k = own_count initial_counts k + tally vs k"
    by blast
  have own: "own_count counts = tally vs" by (rule ext) (simp add: c(2) initial_counts_def)
  show ?thesis using assms(1) c(1) own by (simp add: calculateConsensus_def Let_def)
qed

lemma calculateConsensus_plain:
  assumes "vs \<noteq> []" "plain_verdicts vs"
  shows "\<exists>r. calculateConsensus P vs = Inr r
           \<and> finalVerdict r = decide (tally vs)
           \<and> agreement r = agreement_of (Num (of_nat (max_tally vs))) (length vs)
           \<and> consensus_confidence r = confidence_of (avgConfidence vs) (agreement r)"
proof -
  from calculateConsensus_strings[OF assms(1) plain_is_string[OF assms(2)], of P]
  obtain r counts where r: "calculateConsensus P vs = Inr r"
    "count_verdicts P vs initial_counts = Inr counts" "own_count counts = tally vs"
    "finalVerdict r = decide (tally vs)"
    "agreement r = agreement_of (maxCount counts) (length vs)"
    "consensus_confidence r = confidence_of (avgConfidence vs) (agreement r)"
    by blast
  from count_verdicts_plain[OF assms(2), of initial_counts P] r(2)
  have "added counts = []" by (simp add: initial_counts_def)
  then have "maxCount counts = Num (of_nat (max_tally vs))"
    by (simp add: maxCount_def Object_values_def r(3) Math_max_counts max_tally_def)
  with r show ?thesis by simp
qed

lemma js_div_Num:
  assumes "y \<noteq> 0" "\<bar>x / y\<bar> \<le> 2 ^ 60"
  shows "js_div (Num x) (Num y) = Num (fl (x / y))"
  using assms by (simp add: round64_Num)

lemma js_mul_Num:
  assumes "\<bar>x * y\<bar> \<le> 2 ^ 60"
  shows "js_mul (Num x) (Num y) = Num (fl (x * y))"
  using assms by (simp add: round64_Num)

lemma js_add_exact:
  assumes "0 \<le> i" "0 \<le> j" "i + j < 2 ^ 53"
  shows "js_add (Num (of_int i)) (Num (of_int j)) = Num (of_int (i + j))"
proof -
  have "fl (of_int (i + j)) = of_int (i + j)" using assms by (intro fl_of_int) simp
  moreover have "(of_int (i + j) :: rat) < of_int (2 ^ 53)" using assms(3) by (simp only: of_int_less_iff)
  moreover have "(of_int 0 :: rat) \<le> of_int (i + j)" using assms(1,2) by (simp only: of_int_le_iff)
  ultimately have "round64 (of_int (i + j)) = Num (of_int (i + j))"
    by (subst round64_Num) simp_all
  then show ?thesis by simp
qed

lemma percent_is_int:
  assumes "is_percent a"
  obtains j where "a = Num (of_int j)" "0 \<le> j" "j \<le> 100"
proof (cases a)
  case (Num c)
  with assms have c: "of_int \<lfloor>c\<rfloor> = c" "0 \<le> c" "c \<le> 100" by simp_all
  show ?thesis
  proof (rule that[of "\<lfloor>c\<rfloor>"])
    show "a = Num (of_int \<lfloor>c\<rfloor>)" unfolding c(1) by (rule Num)
    show "0 \<le> \<lfloor>c\<rfloor>" using c(2) by simp
    show "\<lfloor>c\<rfloor> \<le> 100" using c(3) by (simp add: floor_le_iff)
  qed
qed (use assms in simp_all)

lemma foldl_js_add_exact:
  assumes "percent_confidences vs" "0 \<le> i" "i + 100 * int (length vs) < 2 ^ 53"
  shows "foldl (\<lambda>sum v. js_add sum (confidence v)) (Num (of_int i)) vs
           = Num (of_int i + sum_list (map (\<lambda>v. finite_value (confidence v)) vs))"
  using assms
proof (induction vs arbitrary: i)
  case Nil
  then show ?case by simp
next
  case (Cons v vs)
  from Cons.prems(1) have "is_percent (confidence v)" and rest: "percent_confidences vs"
    by (simp_all add: percent_confidences_def)
  then obtain j where j: "confidence v = Num (of_int j)" "0 \<le> j" "j \<le> 100"
    by (elim percent_is_int)
  have step: "js_add (Num (of_int i)) (confidence v) = Num (of_int (i + j))"
    unfolding j(1) using Cons.prems(2,3) j(2,3) by (intro js_add_exact) simp_all
  have rest_sum: "foldl (\<lambda>sum v. js_add sum (confidence v)) (Num (of_int (i + j))) vs
          = Num (of_int (i + j) + sum_list (map (\<lambda>v. finite_value (confidence v)) vs))"
    using Cons.prems(2,3) j(2,3) by (intro Cons.IH[OF rest]) simp_all
  show ?case unfolding foldl_Cons step rest_sum by (simp add: j(1))
qed

lemma sum_confidence_bounds:
  assumes "percent_confidences vs"
  shows "0 \<le> sum_list (map (\<lambda>v. finite_value (confidence v)) vs)"
    "sum_list (map (\<lambda>v. finite_value (confidence v)) vs) \<le> 100 * of_nat (length vs)"
    "sum_list (map (\<lambda>v. finite_value (confidence v)) vs) \<in> \<int>"
  using assms
proof (induction vs)
  case Nil
  {
    case 1 show ?case by simp
  next
    case 2 show ?case by simp
  next
    case 3 show ?case by simp
  }
next
  case (Cons v vs)
  {
    case 1
    then have "is_percent (confidence v)" and rest: "percent_confidences vs"
      by (simp_all add: percent_confidences_def)
    then obtain j where j: "confidence v = Num (of_int j)" "0 \<le> j" "j \<le> 100"
      by (elim percent_is_int)
    have "(of_int 0 :: rat) \<le> of_int j" using j(2) by (simp only: of_int_le_iff)
    with Cons.IH(1)[OF rest] show ?case by (simp add: j(1))
  next
    case 2
    then have "is_percent (confidence v)" and rest: "percent_confidences vs"
      by (simp_all add: percent_confidences_def)
    then obtain j where j: "confidence v = Num (of_int j)" "0 \<le> j" "j \<le> 100"
      by (elim percent_is_int)
    have "(of_int j :: rat) \<le> of_int 100" using j(3) by (simp only: of_int_le_iff)
    with Cons.IH(2)[OF rest] show ?case by (simp add: j(1) algebra_simps)
  next
    case 3
    then have "is_percent (confidence v)" and rest: "percent_confidences vs"
      by (simp_all add: percent_confidences_def)
    then obtain j where j: "confidence v = Num (of_int j)" "0 \<le> j" "j \<le> 100"
      by (elim percent_is_int)
    with Cons.IH(3)[OF rest] show ?case by (simp add: j(1))
  }
qed

lemma mean_confidence_bounds:
  assumes "percent_confidences vs" "vs \<noteq> []"
  shows "0 \<le> mean_confidence vs" "mean_confidence vs \<le> 100"
proof -
  have n: "(0::rat) < of_nat (length vs)" using assms(2) by simp
  from sum_confidence_bounds[OF assms(1)] n
  show "0 \<le> mean_confidence vs" "mean_confidence vs \<le> 100"
    by (simp_all add: mean_confidence_def divide_le_eq)
qed

text \<open>The sum of percent confidences is exact, so the mean is rounded once.\<close>

lemma avgConfidence_exact_sum:
  assumes "percent_confidences vs" "vs \<noteq> []" "length vs < 2 ^ 32"
  shows "avgConfidence vs = Num (fl (mean_confidence vs))"
proof -
  have "(0::int) + 100 * int (length vs) < 2 ^ 53" using assms(3) by simp
  from foldl_js_add_exact[OF assms(1) _ this]
  have sum: "foldl (\<lambda>sum v. js_add sum (confidence v)) (Num 0) vs
               = Num (sum_list (map (\<lambda>v. finite_value (confidence v)) vs))"
    by simp
  have n: "(of_nat (length vs) :: rat) \<noteq> 0" using assms(2) by simp
  have "\<bar>mean_confidence vs\<bar> \<le> 2 ^ 60"
    using mean_confidence_bounds[OF assms(1,2)] by simp
  then show ?thesis
    unfolding avgConfidence_def sum mean_confidence_def by (intro js_div_Num[OF n])
qed

lemma ratio_bounds:
  assumes "0 < n" "m \<le> n"
  shows "(0::rat) \<le> of_nat m / of_nat n" "(of_nat m :: rat) / of_nat n \<le> 1"
proof -
  have "(of_nat m :: rat) \<le> of_nat n" using assms(2) by (simp only: of_nat_le_iff)
  moreover have "(0::rat) < of_nat n" using assms(1) by simp
  ultimately show "(0::rat) \<le> of_nat m / of_nat n" "(of_nat m :: rat) / of_nat n \<le> 1"
    by (simp_all add: divide_le_eq_1)
qed

lemma fl_ratio_small:
  assumes "0 \<le> p" "p \<le> 1"
  shows "\<bar>fl p * 100\<bar> \<le> 2 ^ 60"
proof -
  have "\<bar>fl p - p\<bar> \<le> 2 / 9007199254740992" using fl_abs_error[of p 1] assms by simp
  with assms have "\<bar>fl p\<bar> \<le> 2" by linarith
  then have "\<bar>fl p * 100\<bar> \<le> 200" by (simp add: abs_mult)
  then show ?thesis by simp
qed

text \<open>The agreement of a largest count \<open>m\<close> among \<open>n\<close> verdicts.\<close>

lemma agreement_of_Num:
  assumes "0 < n" "m \<le> n"
  shows "agreement_of (Num (of_nat m)) n
           = Num (of_int \<lfloor>fl (fl (of_nat m / of_nat n) * 100) + 1 / 2\<rfloor>)"
proof -
  note p = ratio_bounds[OF assms]
  have n: "(of_nat n :: rat) \<noteq> 0" using assms(1) by simp
  have "\<bar>(of_nat m :: rat) / of_nat n\<bar> \<le> 2 ^ 60" using p by simp
  then have d: "js_div (Num (of_nat m)) (Num (of_nat n)) = Num (fl (of_nat m / of_nat n))"
    by (intro js_div_Num[OF n])
  show ?thesis
    unfolding agreement_of_def d by (simp only: js_mul_Num[OF fl_ratio_small[OF p]] Math_round.simps)
qed

lemma agreement_of_bounds:
  assumes "0 < n" "m \<le> n"
  shows "0 \<le> \<lfloor>fl (fl (of_nat m / of_nat n) * 100) + 1 / 2\<rfloor>"
    "\<lfloor>fl (fl (of_nat m / of_nat n) * 100) + 1 / 2\<rfloor> \<le> 100"
proof -
  let ?z = "fl (fl (of_nat m / of_nat n) * 100)"
  let ?x = "100 * (of_nat m / of_nat n) :: rat"
  note p = ratio_bounds[OF assms]
  have x: "0 \<le> ?x" "?x \<le> 100" using p by simp_all
  have e: "\<bar>?z - ?x\<bar> < 1 / 2 ^ 44" by (rule agreement_error[OF p])
  have "(1::rat) / 2 ^ 44 \<le> 1 / 2" by simp
  with e x have "of_int 0 \<le> ?z + 1 / 2" "?z + 1 / 2 < of_int 101" by linarith+
  then have "0 \<le> \<lfloor>?z + 1 / 2\<rfloor>" "\<lfloor>?z + 1 / 2\<rfloor> < 101"
    by (simp_all only: le_floor_iff floor_less_iff)
  then show "0 \<le> \<lfloor>?z + 1 / 2\<rfloor>" "\<lfloor>?z + 1 / 2\<rfloor> \<le> 100" by simp_all
qed

text \<open>
  It is the rounding of the exact \<open>100 m / n\<close>, or one less where that lies halfway
  between two integers.
\<close>

lemma agreement_of_round:
  assumes "0 < n" "m \<le> n" "n < 2 ^ 32"
  shows "\<lfloor>fl (fl (of_nat m / of_nat n) * 100) + 1 / 2\<rfloor> = \<lfloor>100 * of_nat m / of_nat n + 1 / 2 :: rat\<rfloor>
         \<or> (of_int \<lfloor>100 * of_nat m / of_nat n + 1 / 2 :: rat\<rfloor> = (100 * of_nat m / of_nat n :: rat) + 1 / 2
            \<and> \<lfloor>fl (fl (of_nat m / of_nat n) * 100) + 1 / 2\<rfloor>
                = \<lfloor>100 * of_nat m / of_nat n + 1 / 2 :: rat\<rfloor> - 1)"
proof -
  have x: "(100 * of_nat m / of_nat n :: rat) = of_int (100 * int m) / of_int (int n)" by simp
  have "(of_nat n :: rat) < of_nat (2 ^ 32)" using assms(3) by (simp only: of_nat_less_iff)
  then have "2 * (of_nat n :: rat) \<le> 2 ^ 44" by simp
  moreover have "(0::rat) < 2 * of_nat n" using assms(1) by simp
  ultimately have d: "(1::rat) / 2 ^ 44 \<le> 1 / (2 * of_int (int n))"
    by (simp add: field_simps)
  have e: "\<bar>fl (fl (of_nat m / of_nat n) * 100) - 100 * of_nat m / of_nat n\<bar> < 1 / 2 ^ 44"
    using agreement_error[OF ratio_bounds[OF assms(1,2)]] by simp
  have pos: "0 < int n" using assms(1) by simp
  from round_stable[OF x pos e d] show ?thesis .
qed

text \<open>The confidence, from a mean \<open>s\<close> and an agreement \<open>a\<close>, both in the percent range.\<close>

lemma percent_ratio:
  assumes "0 \<le> a" "a \<le> 100"
  shows "(0::rat) \<le> of_int a / 100" "(of_int a :: rat) / 100 \<le> 1"
proof -
  have "(of_int 0 :: rat) \<le> of_int a" "(of_int a :: rat) \<le> of_int 100"
    using assms by (simp_all only: of_int_le_iff)
  then show "(0::rat) \<le> of_int a / 100" "(of_int a :: rat) / 100 \<le> 1" by simp_all
qed

lemma confidence_of_Num:
  assumes "0 \<le> s" "s \<le> 100" "0 \<le> a" "a \<le> 100"
  shows "confidence_of (Num (fl s)) (Num (of_int a))
           = Num (of_int \<lfloor>fl (fl s * fl (of_int a / 100)) + 1 / 2\<rfloor>)"
proof -
  note w = percent_ratio[OF assms(3,4)]
  have "\<bar>(of_int a :: rat) / 100\<bar> \<le> 2 ^ 60" using w by simp
  then have d: "js_div (Num (of_int a)) (Num 100) = Num (fl (of_int a / 100))"
    by (intro js_div_Num) simp_all
  have A: "\<bar>fl s - s\<bar> \<le> 101 / 9007199254740992" using fl_abs_error[of s 100] assms(1,2) by simp
  have B: "\<bar>fl (of_int a / 100) - of_int a / 100\<bar> \<le> 2 / 9007199254740992"
    using fl_abs_error[of "of_int a / 100" 1] w by simp
  have "\<bar>fl s\<bar> \<le> 101" using A assms(1,2) by linarith
  moreover have "\<bar>fl (of_int a / 100)\<bar> \<le> 2" using B w by linarith
  ultimately have "\<bar>fl s\<bar> * \<bar>fl (of_int a / 100)\<bar> \<le> 101 * 2" by (intro mult_mono) auto
  then have "\<bar>fl s * fl (of_int a / 100)\<bar> \<le> 2 ^ 60" by (simp add: abs_mult)
  then show ?thesis
    unfolding confidence_of_def d by (simp only: js_mul_Num Math_round.simps)
qed

lemma confidence_of_bounds:
  assumes "0 \<le> s" "s \<le> 100" "0 \<le> a" "a \<le> 100"
  shows "0 \<le> \<lfloor>fl (fl s * fl (of_int a / 100)) + 1 / 2\<rfloor>"
    "\<lfloor>fl (fl s * fl (of_int a / 100)) + 1 / 2\<rfloor> \<le> 100"
proof -
  let ?z = "fl (fl s * fl (of_int a / 100))"
  let ?x = "s * (of_int a / 100)"
  note w = percent_ratio[OF assms(3,4)]
  have "s * (of_int a / 100) \<le> 100 * 1" using assms(1,2) w by (intro mult_mono) auto
  moreover have "0 \<le> s * (of_int a / 100)" using assms(1) w by simp
  ultimately have x: "0 \<le> ?x" "?x \<le> 100" by simp_all
  have e: "\<bar>?z - ?x\<bar> < 1 / 2 ^ 44" by (rule confidence_error[OF assms(1,2) w])
  have "(1::rat) / 2 ^ 44 \<le> 1 / 2" by simp
  with e x have "of_int 0 \<le> ?z + 1 / 2" "?z + 1 / 2 < of_int 101" by linarith+
  then have "0 \<le> \<lfloor>?z + 1 / 2\<rfloor>" "\<lfloor>?z + 1 / 2\<rfloor> < 101"
    by (simp_all only: le_floor_iff floor_less_iff)
  then show "0 \<le> \<lfloor>?z + 1 / 2\<rfloor>" "\<lfloor>?z + 1 / 2\<rfloor> \<le> 100" by simp_all
qed

lemma confidence_of_round:
  assumes pc: "percent_confidences vs" and ne: "vs \<noteq> []" and len: "length vs < 2 ^ 32"
    and a: "0 \<le> a" "a \<le> 100"
  shows "\<lfloor>fl (fl (mean_confidence vs) * fl (of_int a / 100)) + 1 / 2\<rfloor>
           = \<lfloor>mean_confidence vs * of_int a / 100 + 1 / 2\<rfloor>
         \<or> (of_int \<lfloor>mean_confidence vs * of_int a / 100 + 1 / 2\<rfloor>
               = mean_confidence vs * of_int a / 100 + 1 / 2
            \<and> \<lfloor>fl (fl (mean_confidence vs) * fl (of_int a / 100)) + 1 / 2\<rfloor>
               = \<lfloor>mean_confidence vs * of_int a / 100 + 1 / 2\<rfloor> - 1)"
proof -
  from sum_confidence_bounds(3)[OF pc] obtain S where
    S: "sum_list (map (\<lambda>v. finite_value (confidence v)) vs) = of_int S"
    by (auto elim: Ints_cases)
  let ?n = "int (length vs)"
  have n: "0 < ?n" using ne by simp
  have x: "mean_confidence vs * of_int a / 100 = of_int (S * a) / of_int (100 * ?n)"
    by (simp add: mean_confidence_def S)
  have "(of_nat (length vs) :: rat) < of_nat (2 ^ 32)" using len by (simp only: of_nat_less_iff)
  then have "2 * (100 * of_nat (length vs) :: rat) \<le> 2 ^ 44" by simp
  moreover have "(0::rat) < 2 * (100 * of_nat (length vs))" using ne by simp
  ultimately have d: "(1::rat) / 2 ^ 44 \<le> 1 / (2 * of_int (100 * ?n))"
    by (simp add: field_simps)
  have pos: "0 < 100 * ?n" using n by simp
  have e: "\<bar>fl (fl (mean_confidence vs) * fl (of_int a / 100)) - mean_confidence vs * of_int a / 100\<bar>
             < 1 / 2 ^ 44"
    using confidence_error[OF mean_confidence_bounds[OF pc ne] percent_ratio[OF a]] by simp
  from round_stable[OF x pos e d] show ?thesis .
qed

lemma three_workers_strings: "three_workers \<noteq> []" "string_verdicts three_workers"
  by (simp_all add: three_workers_def worker_verdict_def string_verdicts_def)



text \<open>
  C3. On the empty list the result is the fixed one, whose summary is the text
  "No worker verdicts available".
\<close>

theorem C3_empty_input:
  "calculateConsensus P [] =
     Inr \<lparr> finalVerdict = FMixed, consensus_confidence = Num 0, agreement = Num 0,
           consensus_summary = ''No worker verdicts available'',
           allConcerns = [], allRecommendations = [], dissenting = [] \<rparr>"
  by (simp add: calculateConsensus_def)

theorem C3_summary_counterexample:
  "calculateConsensus test_platform [] =
     Inr \<lparr> finalVerdict = FMixed, consensus_confidence = Num 0, agreement = Num 0,
           consensus_summary = ''No worker verdicts available'',
           allConcerns = [], allRecommendations = [], dissenting = [] \<rparr>
   \<and> ''No worker verdicts available'' \<noteq> ''no verdicts available''"
  by (simp add: calculateConsensus_def)

lemma dissenting_filter:
  assumes "vs \<noteq> []" "calculateConsensus P vs = Inr r"
  shows "dissenting r = filter (is_dissenting (finalVerdict r)) vs"
proof (cases "count_verdicts P vs initial_counts")
  case (Inl e)
  with assms show ?thesis by (simp add: calculateConsensus_def)
next
  case (Inr counts)
  with assms show ?thesis by (auto simp: calculateConsensus_def Let_def)
qed

text \<open>
  C4. For a non-empty list the dissenting verdicts of a result are, in the order of the
  input, those whose label differs from the final verdict; under a final verdict of concern
  only those that are neither concern nor reject; under a final verdict of mixed none. There
  is a result when every verdict is a string.
\<close>

theorem C4_dissenting:
  assumes "vs \<noteq> []"
  shows "(string_verdicts vs \<longrightarrow> (\<exists>r. calculateConsensus P vs = Inr r))
       \<and> (\<forall>r. calculateConsensus P vs = Inr r \<longrightarrow>
            dissenting r =
              filter (\<lambda>v. if finalVerdict r = FMixed then False
                          else if finalVerdict r = FConcern
                          then verdict v \<noteq> JString (Verdict_str Concern)
                               \<and> verdict v \<noteq> JString (Verdict_str Reject)
                          else verdict v \<noteq> JString (FinalVerdict_str (finalVerdict r)))
                vs)"
proof -
  have "is_dissenting fv v =
          (if fv = FMixed then False
           else if fv = FConcern
           then verdict v \<noteq> JString (Verdict_str Concern) \<and> verdict v \<noteq> JString (Verdict_str Reject)
           else verdict v \<noteq> JString (FinalVerdict_str fv))" for fv v
    by (cases fv) (simp_all add: is_dissenting_def)
  then have label: "filter (is_dissenting (finalVerdict r)) vs =
          filter (\<lambda>v. if finalVerdict r = FMixed then False
                      else if finalVerdict r = FConcern
                      then verdict v \<noteq> JString (Verdict_str Concern)
                           \<and> verdict v \<noteq> JString (Verdict_str Reject)
                      else verdict v \<noteq> JString (FinalVerdict_str (finalVerdict r))) vs" for r
    by presburger
  have returns: "\<exists>r. calculateConsensus P vs = Inr r" if "string_verdicts vs"
    using calculateConsensus_strings[OF assms that, of P] by blast
  have "dissenting r =
          filter (\<lambda>v. if finalVerdict r = FMixed then False
                      else if finalVerdict r = FConcern
                      then verdict v \<noteq> JString (Verdict_str Concern)
                           \<and> verdict v \<noteq> JString (Verdict_str Reject)
                      else verdict v \<noteq> JString (FinalVerdict_str (finalVerdict r))) vs"
    if "calculateConsensus P vs = Inr r" for r
    unfolding dissenting_filter[OF assms that] by (rule label)
  with returns show ?thesis by blast
qed

lemma three_workers_result:
  "calculateConsensus test_platform three_workers =
     Inr \<lparr> finalVerdict = FApprove, consensus_confidence = Num 54, agreement = Num 67,
           consensus_summary =
             ''3 workers analyzed this session. 67% agreement on verdict: APPROVE.'',
           allConcerns = [], allRecommendations = [],
           dissenting = [worker_verdict Reject 70] \<rparr>"
  by code_simp

theorem C4_dissenting_witness:
  "three_workers \<noteq> [] \<and> string_verdicts three_workers
   \<and> calculateConsensus test_platform three_workers =
       Inr \<lparr> finalVerdict = FApprove, consensus_confidence = Num 54, agreement = Num 67,
             consensus_summary =
               ''3 workers analyzed this session. 67% agreement on verdict: APPROVE.'',
             allConcerns = [], allRecommendations = [],
             dissenting = [worker_verdict Reject 70] \<rparr>
   \<and> filter (\<lambda>v. verdict v \<noteq> JString (FinalVerdict_str FApprove)) three_workers
       = [worker_verdict Reject 70]"
  using C4_dissenting[OF three_workers_strings(1), of test_platform] three_workers_strings
    three_workers_result
  by (simp add: three_workers_def worker_verdict_def)

text \<open>
  Away from the names of inherited methods: for a non-empty list (of fewer than \<open>2^32\<close>
  elements, as every array) whose confidences are integers between 0 and 100, the
  agreement and the confidence are integers between 0 and 100; each is the rounding of the
  exact value, or one less where that value lies halfway between two integers.
\<close>

lemma plain_percent_result:
  assumes "vs \<noteq> []" "length vs < 2 ^ 32" "plain_verdicts vs" "percent_confidences vs"
  shows "\<exists>r a c. calculateConsensus P vs = Inr r
           \<and> agreement r = Num (of_int a) \<and> consensus_confidence r = Num (of_int c)
           \<and> a = \<lfloor>fl (fl (of_nat (max_tally vs) / of_nat (length vs)) * 100) + 1 / 2\<rfloor>
           \<and> c = \<lfloor>fl (fl (mean_confidence vs) * fl (of_int a / 100)) + 1 / 2\<rfloor>
           \<and> 0 \<le> a \<and> a \<le> 100 \<and> 0 \<le> c \<and> c \<le> 100"
proof -
  from calculateConsensus_plain[OF assms(1,3), of P] obtain r where
    r: "calculateConsensus P vs = Inr r"
       "agreement r = agreement_of (Num (of_nat (max_tally vs))) (length vs)"
       "consensus_confidence r = confidence_of (avgConfidence vs) (agreement r)"
    by blast
  have n: "0 < length vs" using assms(1) by simp
  define a where "a = \<lfloor>fl (fl (of_nat (max_tally vs) / of_nat (length vs)) * 100) + 1 / 2\<rfloor>"
  define c where "c = \<lfloor>fl (fl (mean_confidence vs) * fl (of_int a / 100)) + 1 / 2\<rfloor>"
  have agr: "agreement r = Num (of_int a)"
    unfolding r(2) a_def by (rule agreement_of_Num[OF n max_tally_le_length])
  have a: "0 \<le> a" "a \<le> 100"
    unfolding a_def by (rule agreement_of_bounds[OF n max_tally_le_length])+
  note m = mean_confidence_bounds[OF assms(4,1)]
  have conf: "consensus_confidence r = Num (of_int c)"
    unfolding r(3) agr avgConfidence_exact_sum[OF assms(4,1,2)] c_def
    by (rule confidence_of_Num[OF m a])
  have c: "0 \<le> c" "c \<le> 100"
    unfolding c_def by (rule confidence_of_bounds[OF m a])+
  from r(1) agr conf a c a_def c_def show ?thesis by blast
qed

lemma plain_percent_rounding:
  assumes "vs \<noteq> []" "length vs < 2 ^ 32" "plain_verdicts vs" "percent_confidences vs"
  shows "\<exists>r a c. calculateConsensus P vs = Inr r
           \<and> agreement r = Num (of_int a) \<and> consensus_confidence r = Num (of_int c)
           \<and> (a = \<lfloor>100 * of_nat (max_tally vs) / of_nat (length vs) + 1 / 2 :: rat\<rfloor>
              \<or> (of_int \<lfloor>100 * of_nat (max_tally vs) / of_nat (length vs) + 1 / 2 :: rat\<rfloor>
                    = (100 * of_nat (max_tally vs) / of_nat (length vs) :: rat) + 1 / 2
                  \<and> a = \<lfloor>100 * of_nat (max_tally vs) / of_nat (length vs) + 1 / 2 :: rat\<rfloor> - 1))
           \<and> (c = \<lfloor>mean_confidence vs * of_int a / 100 + 1 / 2\<rfloor>
              \<or> (of_int \<lfloor>mean_confidence vs * of_int a / 100 + 1 / 2\<rfloor>
                    = mean_confidence vs * of_int a / 100 + 1 / 2
                  \<and> c = \<lfloor>mean_confidence vs * of_int a / 100 + 1 / 2\<rfloor> - 1))"
proof -
  from plain_percent_result[OF assms, of P] obtain r a c where
    r: "calculateConsensus P vs = Inr r" "agreement r = Num (of_int a)"
       "consensus_confidence r = Num (of_int c)"
       "a = \<lfloor>fl (fl (of_nat (max_tally vs) / of_nat (length vs)) * 100) + 1 / 2\<rfloor>"
       "c = \<lfloor>fl (fl (mean_confidence vs) * fl (of_int a / 100)) + 1 / 2\<rfloor>"
       "0 \<le> a" "a \<le> 100"
    by blast
  have n: "0 < length vs" using assms(1) by simp
  note ra = agreement_of_round[OF n max_tally_le_length assms(2), folded r(4)]
  note rc = confidence_of_round[OF assms(4,1,2) r(6,7), folded r(5)]
  from r(1,2,3) ra rc show ?thesis by blast
qed

lemma ten_workers_result:
  "calculateConsensus test_platform ten_workers =
     Inr \<lparr> finalVerdict = FApprove, consensus_confidence = Num 31, agreement = Num 70,
           consensus_summary =
             ''10 workers analyzed this session. 70% agreement on verdict: APPROVE.'',
           allConcerns = [], allRecommendations = [],
           dissenting = replicate 3 (worker_verdict Neutral 45) \<rparr>"
  by code_simp

lemma ten_workers_exact:
  "max_tally ten_workers = 7" "length ten_workers = 10" "mean_confidence ten_workers = 45"
  "plain_verdicts ten_workers" "percent_confidences ten_workers"
  by code_simp+

lemma forty_workers_exact:
  "max_tally forty_workers = 23" "length forty_workers = 40" "plain_verdicts forty_workers"
  by code_simp+

lemma agreement_of_tie: "agreement_of (Num 23) 40 = Num 57"
  by code_simp

lemma forty_workers_agreement:
  "\<exists>r. calculateConsensus test_platform forty_workers = Inr r \<and> agreement r = Num 57"
proof -
  have "forty_workers \<noteq> []" by (simp add: forty_workers_def)
  from calculateConsensus_plain[OF this forty_workers_exact(3), of test_platform]
  show ?thesis by (auto simp: forty_workers_exact agreement_of_tie)
qed

text \<open>The same quantities with the multiplication before the division.\<close>

lemma product_first:
  "Math_round (js_div (js_mul (Num 100) (Num 23)) (Num 40)) = Num 58"
  "Math_round (js_div (js_mul (Num 45) (Num 70)) (Num 100)) = Num 32"
  by code_simp+

text \<open>
  C2. Ten verdicts, seven of approve and three of neutral, each of confidence 45: the
  agreement is 70 and the mean 45, the exact product \<open>45 * 70 / 100\<close> is \<open>31.5\<close>, which
  rounds to 32, and the confidence of the result is 31. Forty verdicts, 23 of approve and
  17 of neutral: \<open>100 * 23 / 40\<close> is \<open>57.5\<close>, which rounds to 58, and the agreement of
  the result is 57.
\<close>

theorem C2_rounding_at_ties:
  "calculateConsensus test_platform ten_workers =
     Inr \<lparr> finalVerdict = FApprove, consensus_confidence = Num 31, agreement = Num 70,
           consensus_summary =
             ''10 workers analyzed this session. 70% agreement on verdict: APPROVE.'',
           allConcerns = [], allRecommendations = [],
           dissenting = replicate 3 (worker_verdict Neutral 45) \<rparr>
   \<and> max_tally ten_workers = 7 \<and> length ten_workers = 10
   \<and> mean_confidence ten_workers = 45
   \<and> Math_round (Num (45 * 70 / 100)) = Num 32
   \<and> round_half_even (45 * 70 / 100) = 32
   \<and> (\<exists>r. calculateConsensus test_platform forty_workers = Inr r \<and> agreement r = Num 57)
   \<and> max_tally forty_workers = 23 \<and> length forty_workers = 40
   \<and> Math_round (Num (100 * 23 / 40)) = Num 58
   \<and> round_half_even (100 * 23 / 40) = 58"
proof -
  have "Math_round (Num (45 * 70 / 100)) = Num 32" "round_half_even (45 * 70 / 100) = 32"
    "Math_round (Num (100 * 23 / 40)) = Num 58" "round_half_even (100 * 23 / 40) = 58"
    by code_simp+
  with ten_workers_result ten_workers_exact(1,2,3) forty_workers_agreement forty_workers_exact(1,2)
  show ?thesis by (simp only: simp_thms)
qed

section \<open>The context extractor\<close>

lemma slice_trailing:
  assumes "1 \<le> k" "k < int (length xs)"
  shows "slice xs (- k) = drop (length xs - nat k) xs" "length (slice xs (- k)) = nat k"
proof -
  have "nat (int (length xs) - k) = length xs - nat k" using assms by linarith
  then show "slice xs (- k) = drop (length xs - nat k) xs"
    using assms by (simp add: slice_def Let_def max_def)
  then show "length (slice xs (- k)) = nat k" using assms by simp
qed

lemma extractContext_truncation:
  fixes session options
  defines "k \<equiv> (case maxChars options of None \<Rightarrow> 60000 | Some k \<Rightarrow> k)"
    and "f \<equiv> formatted_text session (case maxMessages options of None \<Rightarrow> 30 | Some n \<Rightarrow> n)"
  shows "int (length f) \<le> k \<Longrightarrow> extractContext session options = f"
    and "1 \<le> k \<Longrightarrow> k < int (length f) \<Longrightarrow>
           extractContext session options = truncation_marker @ drop (length f - nat k) f
           \<and> prefix truncation_marker (extractContext session options)
           \<and> length (extractContext session options) = nat k + length truncation_marker"
proof -
  show "int (length f) \<le> k \<Longrightarrow> extractContext session options = f"
    by (simp add: extractContext_def Let_def k_def f_def)
  assume k: "1 \<le> k" "k < int (length f)"
  have "extractContext session options = truncation_marker @ slice f (- k)"
    using k by (simp add: extractContext_def Let_def k_def f_def)
  with slice_trailing[OF k]
  show "extractContext session options = truncation_marker @ drop (length f - nat k) f
           \<and> prefix truncation_marker (extractContext session options)
           \<and> length (extractContext session options) = nat k + length truncation_marker"
    by simp
qed

text \<open>
  C6 at \<open>maxChars = 0\<close>: the text of one message is longer than 0 characters, and the
  output is the marker followed by the whole text, which is longer than the marker and 0
  characters.
\<close>

theorem C6_maxChars_zero:
  "extractContext one_message_session \<lparr> maxMessages = None, maxChars = Some 0 \<rparr>
     = truncation_marker @ ''Human: hi''
   \<and> length (extractContext one_message_session \<lparr> maxMessages = None, maxChars = Some 0 \<rparr>)
     > 0 + length truncation_marker"
  by (simp add: extractContext_def formatted_text_def one_message_session_def message_a_def
      format_message_def slice_def truncation_marker_def)

section \<open>The session store\<close>

lemma collect_messages_filter:
  "collect_messages P lines msgs =
     msgs @ filter (\<lambda>m. (type m = ''user'' \<or> type m = ''assistant'') \<and> message m \<noteq> None
                        \<and> isMeta m \<noteq> Some True)
              (List.map_filter (JSON_parse_message P) lines)"
  by (induction lines arbitrary: msgs) (auto simp: List.map_filter_simps split: option.splits)

lemma sorted_first_last:
  fixes ts :: "int list"
  assumes "sorted ts" "ts \<noteq> []"
  shows "hd ts = Min (set ts)" "last ts = Max (set ts)"
proof -
  obtain t rest where ts: "ts = t # rest" using assms(2) by (cases ts) auto
  have "\<forall>x \<in> set ts. t \<le> x" using assms(1) ts by auto
  then show "hd ts = Min (set ts)"
    using ts by (intro Min_eqI[symmetric]) auto
  have "\<forall>x \<in> set ts. x \<le> last ts"
    using assms by (metis in_set_conv_nth last_conv_nth sorted_nth_mono
        Suc_pred' length_greater_0_conv less_Suc_eq_le order_refl diff_less zero_less_one)
  then show "last ts = Max (set ts)"
    using assms(2) by (intro Max_eqI[symmetric]) auto
qed

text \<open>
  C9. The start and the end of a parsed session are the first and the last valid timestamp
  of the retained records in the order of the file, which are the earliest and the latest
  when those timestamps do not decrease along the file; with no valid timestamp both are
  the current time.
\<close>

theorem C9_session_times:
  assumes "readFileSync P sessionPath = Some file_content"
  shows "\<exists>s. parseSession P now_start now_end sessionPath = Some s
           \<and> messages s = retained P file_content
           \<and> (valid_timestamps P (messages s) = [] \<longrightarrow>
                startTime s = now_start \<and> endTime s = now_end)
           \<and> (valid_timestamps P (messages s) \<noteq> [] \<longrightarrow>
                startTime s = hd (valid_timestamps P (messages s))
                \<and> endTime s = last (valid_timestamps P (messages s)))
           \<and> (valid_timestamps P (messages s) \<noteq> [] \<and> sorted (valid_timestamps P (messages s)) \<longrightarrow>
                startTime s = Min (set (valid_timestamps P (messages s)))
                \<and> endTime s = Max (set (valid_timestamps P (messages s))))"
proof -
  let ?msgs = "retained P file_content"
  let ?ts = "valid_timestamps P ?msgs"
  have m: "collect_messages P (filter (\<lambda>l. l \<noteq> []) (split CHR 0x0A (trim file_content))) []
             = ?msgs"
    by (simp add: collect_messages_filter retained_def)
  obtain s where s: "parseSession P now_start now_end sessionPath = Some s"
    and ms: "messages s = ?msgs"
    and st: "startTime s = (case ?ts of [] \<Rightarrow> now_start | t # _ \<Rightarrow> t)"
    and en: "endTime s = (if ?ts = [] then now_end else last ?ts)"
    by (simp add: parseSession_def assms Let_def m)
  have hd: "?ts \<noteq> [] \<Longrightarrow> startTime s = hd ?ts" using st by (cases ?ts) auto
  show ?thesis
    using s ms st en hd sorted_first_last[of ?ts]
    by (intro exI[of _ s]) (auto split: list.splits)
qed

lemma ordered_file_retained:
  "retained test_platform ordered_file_text = [message_b, message_a]"
  by code_simp

lemma ordered_file_timestamps:
  "valid_timestamps test_platform [message_b, message_a] = [1000, 2000]"
  by code_simp

lemma ordered_file_read:
  "readFileSync test_platform ''/sessions/t.jsonl'' = Some ordered_file_text"
  by (simp add: test_platform_def)

theorem C9_session_times_witness:
  "readFileSync test_platform ''/sessions/t.jsonl'' = Some ordered_file_text
   \<and> valid_timestamps test_platform [message_b, message_a] = [1000, 2000]
   \<and> sorted [1000, 2000 :: int]
   \<and> map_option messages (parseSession test_platform 5000 5001 ''/sessions/t.jsonl'')
       = Some [message_b, message_a]
   \<and> map_option startTime (parseSession test_platform 5000 5001 ''/sessions/t.jsonl'') = Some 1000
   \<and> map_option endTime (parseSession test_platform 5000 5001 ''/sessions/t.jsonl'') = Some 2000
   \<and> Min (set [1000, 2000 :: int]) = 1000 \<and> Max (set [1000, 2000 :: int]) = 2000"
  using C9_session_times[OF ordered_file_read, of 5000 5001] ordered_file_read
  by (auto simp: ordered_file_retained ordered_file_timestamps)

theorem C9_earliest_counterexample:
  "map_option startTime (parseSession test_platform 5000 5001 ''/sessions/s.jsonl'') = Some 2000
   \<and> map_option endTime (parseSession test_platform 5000 5001 ''/sessions/s.jsonl'') = Some 1000
   \<and> Min (set (valid_timestamps test_platform
                  (retained test_platform session_file_text))) = 1000
   \<and> Max (set (valid_timestamps test_platform
                  (retained test_platform session_file_text))) = 2000"
  by code_simp

section \<open>The worker dispatcher\<close>

lemma captured_stdout_append:
  "captured_stdout (xs @ ys) = captured_stdout xs @ captured_stdout ys"
  by (induction xs rule: captured_stdout.induct) simp_all

lemma captured_stderr_append:
  "captured_stderr (xs @ ys) = captured_stderr xs @ captured_stderr ys"
  by (induction xs rule: captured_stderr.induct) simp_all

lemma run_before_settling:
  assumes "\<forall>e \<in> set evs. \<not> settles e"
  shows "foldl handle_event initial_child_state evs =
     \<lparr> stdout = captured_stdout evs, stderr = captured_stderr evs,
       timedOut = (Timer_fired \<in> set evs), timer_pending = (Timer_fired \<notin> set evs),
       kill_signals = (if Timer_fired \<in> set evs then [''SIGTERM''] else []),
       resolved = None \<rparr>"
  using assms
proof (induction evs rule: rev_induct)
  case Nil
  then show ?case by (simp add: initial_child_state_def)
next
  case (snoc e evs)
  then show ?case
    by (cases e) (auto simp: captured_stdout_append captured_stderr_append)
qed

lemma resolved_is_kept:
  "resolved s = Some r \<Longrightarrow> resolved (foldl handle_event s evs) = Some r"
proof (induction evs arbitrary: s)
  case Nil
  then show ?case by simp
next
  case (Cons e evs)
  have "resolved (handle_event s e) = Some r"
    using Cons.prems by (cases e) (simp_all add: resolve_def)
  then show ?case using Cons.IH by simp
qed

lemma no_signal_without_timer:
  "\<not> timer_pending s \<Longrightarrow> kill_signals (foldl handle_event s evs) = kill_signals s"
proof (induction evs arbitrary: s)
  case Nil
  then show ?case by simp
next
  case (Cons e evs)
  have "\<not> timer_pending (handle_event s e)" "kill_signals (handle_event s e) = kill_signals s"
    using Cons.prems by (cases e; simp add: resolve_def split: option.splits)+
  then show ?case using Cons.IH by simp
qed

text \<open>
  C7. When the executable exists and the run ends with the process closing, the result is a
  success exactly when the exit status is zero and the timer did not fire before; its
  diagnostic is the timeout marker when the timer fired, else for a non-zero status the
  captured standard error when that is not empty and the exit-code description otherwise;
  and when the timer fired the process was sent SIGTERM, whatever output was captured.
\<close>

theorem C7_completion_mapping:
  assumes "existsSync P (wrapperPath P options)"
    and "\<forall>e \<in> set before. \<not> settles e"
  shows "result (spawnWorker P options (before @ Close code # after)) =
           Some \<lparr> success = (code = Some 0 \<and> Timer_fired \<notin> set before),
                  output' = captured_stdout before,
                  error = (if Timer_fired \<in> set before then Some ''Worker timed out''
                           else if code \<noteq> Some 0
                           then Some (if captured_stderr before \<noteq> [] then captured_stderr before
                                      else exit_code_text code)
                           else None) \<rparr>
       \<and> signals (spawnWorker P options (before @ Close code # after)) =
           (if Timer_fired \<in> set before then [''SIGTERM''] else [])"
proof -
  let ?s = "foldl handle_event initial_child_state before"
  let ?c = "handle_event ?s (Close code)"
  let ?r = "\<lparr> success = (code = Some 0 \<and> Timer_fired \<notin> set before),
                  output' = captured_stdout before,
                  error = (if Timer_fired \<in> set before then Some ''Worker timed out''
                           else if code \<noteq> Some 0
                           then Some (if captured_stderr before \<noteq> [] then captured_stderr before
                                      else exit_code_text code)
                           else None) \<rparr>"
  have c: "resolved ?c = Some ?r" "\<not> timer_pending ?c"
    "kill_signals ?c = (if Timer_fired \<in> set before then [''SIGTERM''] else [])"
    by (simp_all add: run_before_settling[OF assms(2)] resolve_def)
  have f: "foldl handle_event initial_child_state (before @ Close code # after)
             = foldl handle_event ?c after"
    by simp
  show ?thesis
    using resolved_is_kept[OF c(1), of after] no_signal_without_timer[OF c(2), of after] c(3) assms(1)
    by (simp add: spawnWorker_def Let_def f del: foldl_append)
qed

lemma zai_exists: "existsSync test_platform (wrapperPath test_platform zai_options)"
  by (simp add: test_platform_def wrapperPath_def zai_options_def)

theorem C7_completion_mapping_witness:
  "existsSync test_platform (wrapperPath test_platform zai_options)
   \<and> \<not> settles (Stdout_data ''ok'') \<and> \<not> settles (Stderr_data ''warn'')
   \<and> result (spawnWorker test_platform zai_options
               ([Stdout_data ''ok'', Stderr_data ''warn''] @ Close (Some 1) # []))
       = Some \<lparr> success = False, output' = ''ok'', error = Some ''warn'' \<rparr>
   \<and> signals (spawnWorker test_platform zai_options
               ([Stdout_data ''ok'', Stderr_data ''warn''] @ Close (Some 1) # [])) = []"
  using C7_completion_mapping[OF zai_exists, of "[Stdout_data ''ok'', Stderr_data ''warn'']" "Some 1" "[]"]
    zai_exists
  by simp

theorem C7_stderr_counterexample:
  "\<not> success (the (result (spawnWorker test_platform zai_options
                   [Stderr_data ''boom'', Timer_fired, Close None])))
   \<and> error (the (result (spawnWorker test_platform zai_options
                   [Stderr_data ''boom'', Timer_fired, Close None]))) = Some ''Worker timed out''
   \<and> captured_stderr [Stderr_data ''boom'', Timer_fired, Close None] = ''boom''"
  using zai_exists
  by (simp add: spawnWorker_def Let_def initial_child_state_def resolve_def)

text \<open>A launch error that comes first settles the run with the message of the error.\<close>

lemma spawnWorker_error_event:
  assumes "existsSync P (wrapperPath P options)"
    and "\<forall>e \<in> set before. \<not> settles e"
  shows "result (spawnWorker P options (before @ Error_event msg # after)) =
           Some \<lparr> success = False, output' = captured_stdout before, error = Some msg \<rparr>"
proof -
  let ?c = "handle_event (foldl handle_event initial_child_state before) (Error_event msg)"
  have "resolved ?c = Some \<lparr> success = False, output' = captured_stdout before, error = Some msg \<rparr>"
    by (simp add: run_before_settling[OF assms(2)] resolve_def)
  from resolved_is_kept[OF this, of after] assms(1) show ?thesis
    by (simp add: spawnWorker_def Let_def)
qed

text \<open>
  C8. When the executable does not exist in the binary directory, the call spawns no
  process, sets no timer, and resolves at once to a failure with empty output and the
  diagnostic that the variant was not found at the path of the wrapper.
\<close>

theorem C8_missing_executable:
  assumes "\<not> existsSync P (wrapperPath P options)"
  shows "spawned (spawnWorker P options events) = []
       \<and> timer_ms (spawnWorker P options events) = None
       \<and> result (spawnWorker P options events) =
           Some \<lparr> success = False, output' = [],
                  error = Some (''Variant \"'' @ opt_variant options @ ''\" not found at ''
                                @ path_join P (case binDir options of
                                                 None \<Rightarrow> DEFAULT_BIN_DIR P | Some d \<Rightarrow> d)
                                    (opt_variant options)) \<rparr>"
  using assms by (simp add: spawnWorker_def wrapperPath_def)

theorem C8_missing_executable_witness:
  "\<not> existsSync test_platform (wrapperPath test_platform (zai_options\<lparr>opt_variant := ''glm''\<rparr>))
   \<and> spawned (spawnWorker test_platform (zai_options\<lparr>opt_variant := ''glm''\<rparr>)
               [Stdout_data ''ok'', Close (Some 0)]) = []
   \<and> timer_ms (spawnWorker test_platform (zai_options\<lparr>opt_variant := ''glm''\<rparr>)
               [Stdout_data ''ok'', Close (Some 0)]) = None
   \<and> result (spawnWorker test_platform (zai_options\<lparr>opt_variant := ''glm''\<rparr>)
               [Stdout_data ''ok'', Close (Some 0)])
       = Some \<lparr> success = False, output' = [],
                error = Some ''Variant \"glm\" not found at /bin/glm'' \<rparr>"
proof -
  have h: "\<not> existsSync test_platform (wrapperPath test_platform (zai_options\<lparr>opt_variant := ''glm''\<rparr>))"
    by (simp add: test_platform_def wrapperPath_def zai_options_def)
  from C8_missing_executable[OF h, of "[Stdout_data ''ok'', Close (Some 0)]"] h
  show ?thesis by (simp add: test_platform_def zai_options_def)
qed

section \<open>The verdict of a worker\<close>

lemma coalesce_eq: "coalesce a b = (if a = None \<or> a = Some JNull then b else the a)"
  by (cases a; cases "the a") simp_all

lemma Verdict_of_json_iff: "Verdict_of_json j \<noteq> None \<longleftrightarrow> (\<exists>k. j = JString (Verdict_str k))"
proof
  assume "Verdict_of_json j \<noteq> None"
  then have "j = JString (Verdict_str Approve) \<or> j = JString (Verdict_str Reject)
             \<or> j = JString (Verdict_str Concern) \<or> j = JString (Verdict_str Neutral)"
    by (simp add: Verdict_of_json_def split: if_splits)
  then show "\<exists>k. j = JString (Verdict_str k)" by blast
next
  assume "\<exists>k. j = JString (Verdict_str k)"
  then obtain k where "j = JString (Verdict_str k)" ..
  then show "Verdict_of_json j \<noteq> None" by (cases k) (simp_all add: Verdict_of_json_def)
qed

text \<open>Whatever decodes to a value other than \<open>null\<close> is parsed, and its verdict copied.\<close>

lemma parseWorkerOutput_decoded:
  assumes "match_verdict_object out = Some m" "JSON_parse P m = Some parsed" "parsed \<noteq> JNull"
  shows "parseWorkerOutput P out = Some (verdict_fields parsed)"
  using assms by (simp add: parseWorkerOutput_def)

lemma parsed_verdict:
  "(case parseWorkerOutput P out of None \<Rightarrow> None | Some p \<Rightarrow> p_verdict p) = decoded_verdict P out"
proof (cases "match_verdict_object out")
  case None
  then show ?thesis by (simp add: parseWorkerOutput_def decoded_verdict_def)
next
  case (Some m)
  show ?thesis
  proof (cases "JSON_parse P m")
    case None
    with Some show ?thesis by (simp add: parseWorkerOutput_def decoded_verdict_def)
  next
    case (Some parsed)
    with \<open>match_verdict_object out = Some m\<close> show ?thesis
      by (cases "parsed = JNull")
        (simp_all add: parseWorkerOutput_def decoded_verdict_def verdict_fields_def)
  qed
qed

lemma runWorker_verdict:
  assumes "runWorker P config context options events = Some v"
  shows "verdict v = coalesce (decoded_verdict P (rawOutput v)) (JString ''neutral'')"
proof -
  from assms obtain res where v: "v = verdict_of_result P config res"
    by (auto simp: runWorker_def Let_def)
  show ?thesis
    unfolding parsed_verdict[symmetric] by (simp add: v verdict_of_result_def Let_def)
qed

text \<open>
  C10. The parser validates nothing: of every output whose matched text decodes (to a
  value other than \<open>null\<close>) it returns the verdict property as it is. \<open>runWorker\<close> puts
  neutral in place of a verdict that is missing (nothing decoded, or the property absent or
  null) and passes any other decoded value on, so that its verdict is of the closed set
  exactly when the verdict was missing or the decoded value is itself of the closed set.
\<close>

theorem C10_verdict_passthrough:
  assumes "runWorker P config context options events = Some v"
  shows "(\<forall>out m parsed. match_verdict_object out = Some m \<and> JSON_parse P m = Some parsed
              \<and> parsed \<noteq> JNull \<longrightarrow>
            (\<exists>p. parseWorkerOutput P out = Some p \<and> p_verdict p = get_prop parsed ''verdict''))
       \<and> (\<forall>out. (case parseWorkerOutput P out of None \<Rightarrow> None | Some p \<Rightarrow> p_verdict p)
                  = decoded_verdict P out)
       \<and> (decoded_verdict P (rawOutput v) = None \<or> decoded_verdict P (rawOutput v) = Some JNull
            \<longrightarrow> verdict v = JString ''neutral'')
       \<and> (\<forall>j. decoded_verdict P (rawOutput v) = Some j \<and> j \<noteq> JNull \<longrightarrow> verdict v = j)
       \<and> ((Verdict_of_json (verdict v) \<noteq> None) =
            (decoded_verdict P (rawOutput v) = None
             \<or> decoded_verdict P (rawOutput v) = Some JNull
             \<or> (\<exists>k. decoded_verdict P (rawOutput v) = Some (JString (Verdict_str k)))))"
proof -
  let ?d = "decoded_verdict P (rawOutput v)"
  note rv = runWorker_verdict[OF assms]
  have 0: "\<exists>p. parseWorkerOutput P out = Some p \<and> p_verdict p = get_prop parsed ''verdict''"
    if "match_verdict_object out = Some m" "JSON_parse P m = Some parsed" "parsed \<noteq> JNull"
    for out m parsed
    using parseWorkerOutput_decoded[OF that] by (simp add: verdict_fields_def)
  have 1: "?d = None \<or> ?d = Some JNull \<Longrightarrow> verdict v = JString ''neutral''"
    by (simp add: rv coalesce_eq)
  have 2: "?d = Some j \<Longrightarrow> j \<noteq> JNull \<Longrightarrow> verdict v = j" for j
    by (simp add: rv coalesce_eq)
  have n: "Verdict_of_json (JString ''neutral'') \<noteq> None" by (simp add: Verdict_of_json_def)
  have 3: "(Verdict_of_json (verdict v) \<noteq> None) =
             (?d = None \<or> ?d = Some JNull \<or> (\<exists>k. ?d = Some (JString (Verdict_str k))))"
  proof (cases "?d = None \<or> ?d = Some JNull")
    case True
    then show ?thesis using 1 n by auto
  next
    case False
    then obtain j where j: "?d = Some j" "j \<noteq> JNull" by auto
    then show ?thesis using 2[OF j] False Verdict_of_json_iff[of j] by auto
  qed
  from 0 parsed_verdict 1 2 3 show ?thesis by blast
qed

lemma test_platform_paths:
  "existsSync test_platform p = (p = ''/bin/zai'')"
  "path_join test_platform a b = a @ ''/'' @ b"
  "DEFAULT_BIN_DIR test_platform = ''/bin''"
  by (simp_all add: test_platform_def)

lemma run_closes_with_success:
  "runWorker test_platform zai_config context default_run_options [Stdout_data out, Close (Some 0)]
     = Some (verdict_of_result test_platform zai_config
               \<lparr> success = True, output' = out, error = None \<rparr>)"
  by (simp add: runWorker_def spawnWorker_def wrapperPath_def Let_def zai_config_def
      default_run_options_def initial_child_state_def resolve_def test_platform_paths)

lemma parse_approve:
  \<open>parseWorkerOutput test_platform ''{"verdict":"approve","confidence":90}''
     = Some \<lparr> p_verdict = Some (JString ''approve''), p_confidence = Num 90,
              p_summary = JString [], p_concerns = [], p_recommendations = [] \<rparr>\<close>
  by code_simp

lemma decoded_approve:
  \<open>decoded_verdict test_platform ''{"verdict":"approve","confidence":90}''
     = Some (JString ''approve'')\<close>
  unfolding parsed_verdict[symmetric] by (simp add: parse_approve)

lemma parse_maybe:
  \<open>parseWorkerOutput test_platform ''{"verdict":"maybe"}''
     = Some \<lparr> p_verdict = Some (JString ''maybe''), p_confidence = Num 50,
              p_summary = JString [], p_concerns = [], p_recommendations = [] \<rparr>\<close>
  by code_simp

lemma run_approve:
  \<open>runWorker test_platform zai_config ''hi'' default_run_options
      [Stdout_data ''{"verdict":"approve","confidence":90}'', Close (Some 0)]
    = Some \<lparr> worker = Skeptic, verdict = JString ''approve'', confidence = Num 90,
             summary = JString [], concerns = [], recommendations = [],
             rawOutput = ''{"verdict":"approve","confidence":90}'' \<rparr>\<close>
  unfolding run_closes_with_success
  by (simp add: verdict_of_result_def parse_approve) (simp add: zai_config_def)

theorem C10_verdict_passthrough_witness:
  \<open>runWorker test_platform zai_config ''hi'' default_run_options
      [Stdout_data ''{"verdict":"approve","confidence":90}'', Close (Some 0)]
    = Some \<lparr> worker = Skeptic, verdict = JString ''approve'', confidence = Num 90,
             summary = JString [], concerns = [], recommendations = [],
             rawOutput = ''{"verdict":"approve","confidence":90}'' \<rparr>
   \<and> decoded_verdict test_platform ''{"verdict":"approve","confidence":90}''
       = Some (JString (Verdict_str Approve))
   \<and> Verdict_of_json (JString ''approve'') \<noteq> None\<close>
  using C10_verdict_passthrough[OF run_approve] run_approve decoded_approve
  by (simp add: Verdict_of_json_def)

theorem C10_closed_set_counterexample:
  \<open>map_option verdict
     (runWorker test_platform zai_config ''hi'' default_run_options
        [Stdout_data ''{"verdict":"maybe"}'', Close (Some 0)]) = Some (JString ''maybe'')
   \<and> Verdict_of_json (JString ''maybe'') = None\<close>
  by (simp add: run_closes_with_success verdict_of_result_def parse_maybe Verdict_of_json_def)

section \<open>A verdict that names an inherited method\<close>

lemma parse_toString:
  "parseWorkerOutput test_platform toString_output
     = Some \<lparr> p_verdict = Some (JString ''toString''), p_confidence = Num 50,
              p_summary = JString [], p_concerns = [], p_recommendations = [] \<rparr>"
  by code_simp

lemma toString_run:
  "runWorker test_platform zai_config ''hi'' default_run_options
     [Stdout_data toString_output, Close (Some 0)] = Some toString_verdict"
  unfolding run_closes_with_success
  by (simp add: verdict_of_result_def parse_toString) (simp add: zai_config_def toString_verdict_def)

lemma toString_result:
  "percent_confidences [toString_verdict]"
  "calculateConsensus test_platform [toString_verdict] =
     Inr \<lparr> finalVerdict = FMixed, consensus_confidence = NaN, agreement = NaN,
           consensus_summary = ''Single worker analysis: MIXED.'',
           allConcerns = [], allRecommendations = [], dissenting = [] \<rparr>"
  by code_simp+

text \<open>An unknown word, which names nothing that \<open>counts\<close> inherits, is left out of the tally.\<close>

lemma unknown_word_result:
  "calculateConsensus test_platform [toString_verdict\<lparr>verdict := JString ''maybe''\<rparr>] =
     Inr \<lparr> finalVerdict = FMixed, consensus_confidence = Num 0, agreement = Num 0,
           consensus_summary = ''Single worker analysis: MIXED.'',
           allConcerns = [], allRecommendations = [], dissenting = [] \<rparr>"
  by code_simp

text \<open>
  C5. A worker whose output gives the verdict \<open>toString\<close>, with the confidence 50: the
  verdict that \<open>runWorker\<close> returns has this verdict and this confidence, and of the list
  of this one verdict the agreement and the confidence are \<open>NaN\<close>. The name is that of a
  method that \<open>counts\<close> inherits, so the guard of the tally lets it through.
\<close>

theorem C5_inherited_name:
  "runWorker test_platform zai_config ''hi'' default_run_options
     [Stdout_data toString_output, Close (Some 0)] = Some toString_verdict
   \<and> percent_confidences [toString_verdict]
   \<and> calculateConsensus test_platform [toString_verdict] =
       Inr \<lparr> finalVerdict = FMixed, consensus_confidence = NaN, agreement = NaN,
             consensus_summary = ''Single worker analysis: MIXED.'',
             allConcerns = [], allRecommendations = [], dissenting = [] \<rparr>"
  using toString_run toString_result by (simp only: simp_thms)

end
